theory Spec2Isabelle
  imports Complex_Main
begin

text \<open>
  A verification development for the solar-system renderer: the \<open>Utils\<close> helpers
  (angle clamping, epsilon comparison of floats, the time formatter), the \<open>Orbiter\<close>,
  the settings manager, the animation step, the camera fit and the constructor of
  \<open>CelestialObject\<close>. Definitions come first, section by section; the lemmas and the
  theorems about them follow.
\<close>

section \<open>JavaScript numbers\<close>

text \<open>
  A \<^verbatim>\<open>number\<close> is an IEEE 754 binary64 value: a finite value, an infinity or NaN.
  A finite value is carried as the real number it denotes; the sign of zero is not
  modelled (no function below tells \<open>-0\<close> from \<open>+0\<close> except through a division by
  zero, which is modelled as a division by \<open>+0\<close>).
\<close>

datatype jsnum = Fin real | PInf | NInf | NaN

subsection \<open>Rounding to binary64\<close>

definition pow2 :: "int \<Rightarrow> real" where
  "pow2 e = 2 powi e"

text \<open>Nearest integer, a tie going to the even one.\<close>

definition round_even :: "real \<Rightarrow> int" where
  "round_even y =
     (let f = \<lfloor>y\<rfloor> in
      if y - of_int f < 1 / 2 then f
      else if 1 / 2 < y - of_int f then f + 1
      else if even f then f else f + 1)"

text \<open>
  The binary exponent of a magnitude: the largest \<open>e\<close> in \<open>[-1022, 1023]\<close> with
  \<open>2^e \<le> a\<close>, and \<open>-1022\<close> for the subnormal range. The search starts at 1023 and
  walks down.
\<close>

fun expo_from :: "nat \<Rightarrow> int \<Rightarrow> real \<Rightarrow> int" where
  "expo_from 0 e a = e"
| "expo_from (Suc n) e a = (if pow2 e \<le> a then e else expo_from n (e - 1) a)"

definition expo :: "real \<Rightarrow> int" where
  "expo x = expo_from 2045 1023 \<bar>x\<bar>"

text \<open>
  The result of an arithmetic operation whose exact value is \<open>x\<close>: the nearest multiple
  of \<open>2^(e-52)\<close> (53 significant bits, ties to even), or an infinity when that reaches
  \<open>2^1024\<close>.
\<close>

definition rd :: "real \<Rightarrow> jsnum" where
  "rd x =
     (let q = expo x - 52;
          r = of_int (round_even (x / pow2 q)) * pow2 q
      in if pow2 1024 \<le> r then PInf
         else if r \<le> - pow2 1024 then NInf
         else Fin r)"

subsection \<open>Operators\<close>

fun isFinite :: "jsnum \<Rightarrow> bool" where
  "isFinite (Fin a) = True"
| "isFinite x = False"

fun the_fin :: "jsnum \<Rightarrow> real" where
  "the_fin (Fin a) = a"
| "the_fin x = 0"

fun jneg :: "jsnum \<Rightarrow> jsnum" where
  "jneg (Fin a) = Fin (- a)"
| "jneg PInf = NInf"
| "jneg NInf = PInf"
| "jneg NaN = NaN"

fun jabs :: "jsnum \<Rightarrow> jsnum" where
  "jabs (Fin a) = Fin \<bar>a\<bar>"
| "jabs PInf = PInf"
| "jabs NInf = PInf"
| "jabs NaN = NaN"

fun jadd :: "jsnum \<Rightarrow> jsnum \<Rightarrow> jsnum" where
  "jadd (Fin a) (Fin b) = rd (a + b)"
| "jadd NaN y = NaN"
| "jadd x NaN = NaN"
| "jadd PInf NInf = NaN"
| "jadd NInf PInf = NaN"
| "jadd PInf y = PInf"
| "jadd NInf y = NInf"
| "jadd (Fin a) y = y"

definition jsub :: "jsnum \<Rightarrow> jsnum \<Rightarrow> jsnum" where
  "jsub x y = jadd x (jneg y)"

fun jmul :: "jsnum \<Rightarrow> jsnum \<Rightarrow> jsnum" where
  "jmul (Fin a) (Fin b) = rd (a * b)"
| "jmul NaN y = NaN"
| "jmul x NaN = NaN"
| "jmul (Fin a) y = (if a = 0 then NaN else if 0 < a then y else jneg y)"
| "jmul x (Fin b) = (if b = 0 then NaN else if 0 < b then x else jneg x)"
| "jmul PInf y = y"
| "jmul NInf y = jneg y"

fun jdiv :: "jsnum \<Rightarrow> jsnum \<Rightarrow> jsnum" where
  "jdiv (Fin a) (Fin b) =
     (if b = 0 then (if a = 0 then NaN else if 0 < a then PInf else NInf)
      else rd (a / b))"
| "jdiv NaN y = NaN"
| "jdiv x NaN = NaN"
| "jdiv (Fin a) y = Fin 0"
| "jdiv PInf (Fin b) = (if 0 \<le> b then PInf else NInf)"
| "jdiv NInf (Fin b) = (if 0 \<le> b then NInf else PInf)"
| "jdiv PInf PInf = NaN"
| "jdiv PInf NInf = NaN"
| "jdiv NInf PInf = NaN"
| "jdiv NInf NInf = NaN"

text \<open>
  The remainder \<^verbatim>\<open>a % b\<close> has the sign of the dividend and is computed exactly (the
  remainder of two binary64 values is a binary64 value).
\<close>

definition fmod :: "real \<Rightarrow> real \<Rightarrow> real" where
  "fmod a b = sgn a * (\<bar>a\<bar> - \<bar>b\<bar> * of_int \<lfloor>\<bar>a\<bar> / \<bar>b\<bar>\<rfloor>)"

fun jmod :: "jsnum \<Rightarrow> jsnum \<Rightarrow> jsnum" where
  "jmod (Fin a) (Fin b) = (if b = 0 then NaN else Fin (fmod a b))"
| "jmod (Fin a) PInf = Fin a"
| "jmod (Fin a) NInf = Fin a"
| "jmod x y = NaN"

text \<open>Comparisons: every comparison with NaN is false.\<close>

fun jlt :: "jsnum \<Rightarrow> jsnum \<Rightarrow> bool" where
  "jlt (Fin a) (Fin b) = (a < b)"
| "jlt (Fin a) PInf = True"
| "jlt NInf (Fin b) = True"
| "jlt NInf PInf = True"
| "jlt x y = False"

fun jle :: "jsnum \<Rightarrow> jsnum \<Rightarrow> bool" where
  "jle (Fin a) (Fin b) = (a \<le> b)"
| "jle NaN y = False"
| "jle x NaN = False"
| "jle (Fin a) PInf = True"
| "jle (Fin a) NInf = False"
| "jle PInf PInf = True"
| "jle PInf y = False"
| "jle NInf y = True"

definition jgt :: "jsnum \<Rightarrow> jsnum \<Rightarrow> bool" where
  "jgt x y = jlt y x"

definition jge :: "jsnum \<Rightarrow> jsnum \<Rightarrow> bool" where
  "jge x y = jle y x"

text \<open>\<^verbatim>\<open>===\<close> on numbers.\<close>

fun jeq :: "jsnum \<Rightarrow> jsnum \<Rightarrow> bool" where
  "jeq (Fin a) (Fin b) = (a = b)"
| "jeq PInf y = (y = PInf)"
| "jeq NInf y = (y = NInf)"
| "jeq x y = False"

text \<open>\<^verbatim>\<open>Math.max\<close> and \<^verbatim>\<open>Math.min\<close> of two numbers.\<close>

fun jmax :: "jsnum \<Rightarrow> jsnum \<Rightarrow> jsnum" where
  "jmax (Fin a) (Fin b) = Fin (max a b)"
| "jmax NaN y = NaN"
| "jmax x NaN = NaN"
| "jmax PInf y = PInf"
| "jmax x PInf = PInf"
| "jmax NInf y = y"
| "jmax x NInf = x"

fun jmin :: "jsnum \<Rightarrow> jsnum \<Rightarrow> jsnum" where
  "jmin (Fin a) (Fin b) = Fin (min a b)"
| "jmin NaN y = NaN"
| "jmin x NaN = NaN"
| "jmin NInf y = NInf"
| "jmin x NInf = NInf"
| "jmin PInf y = y"
| "jmin x PInf = x"

section \<open>\<open>Utils\<close>: epsilon comparison of floats\<close>

text \<open>
  \<^verbatim>\<open>public static FloatingPointEqualityEpsilon = Number.EPSILON * 100;\<close>
  It is the default of the \<open>epsilon\<close> parameter of the comparisons below; the model
  passes it explicitly.
\<close>

definition NumberEPSILON :: jsnum where
  "NumberEPSILON = Fin (pow2 (- 52))"

definition FloatingPointEqualityEpsilon :: jsnum where
  "FloatingPointEqualityEpsilon = jmul NumberEPSILON (Fin 100)"

text \<open>
  \<^verbatim>\<open>if (!Number.isFinite(value1) || !Number.isFinite(value2)) { return value1 === value2; }\<close>
  \<^verbatim>\<open>return false;\<close>
  Both arguments are numbers, so the \<^verbatim>\<open>typeof\<close> test before it never fires.
\<close>

definition SimpleFloatEQ :: "jsnum \<Rightarrow> jsnum \<Rightarrow> bool" where
  "SimpleFloatEQ value1 value2 =
     (if isFinite value1 then (if isFinite value2 then False else jeq value1 value2)
      else jeq value1 value2)"

text \<open>
  \<^verbatim>\<open>let divisor = Math.max(value1, value2);\<close>
  \<^verbatim>\<open>if (divisor === 0) { divisor = Math.min(value1, value2); }\<close>
  \<^verbatim>\<open>return divisor < 0 ? -divisor : divisor;\<close>
\<close>

definition FloatEQDivisor :: "jsnum \<Rightarrow> jsnum \<Rightarrow> jsnum" where
  "FloatEQDivisor value1 value2 =
     (let divisor0 = jmax value1 value2;
          divisor = (if jeq divisor0 (Fin 0) then jmin value1 value2 else divisor0)
      in if jlt divisor (Fin 0) then jneg divisor else divisor)"

definition FloatEQ :: "jsnum \<Rightarrow> jsnum \<Rightarrow> jsnum \<Rightarrow> bool" where
  "FloatEQ value1 value2 epsilon =
     (if SimpleFloatEQ value1 value2 then True
      else let divisor = FloatEQDivisor value1 value2
           in jle (jdiv (jabs (jsub value1 value2)) divisor) epsilon)"

definition FloatNE :: "jsnum \<Rightarrow> jsnum \<Rightarrow> jsnum \<Rightarrow> bool" where
  "FloatNE value1 value2 epsilon = (\<not> FloatEQ value1 value2 epsilon)"

definition FloatLT :: "jsnum \<Rightarrow> jsnum \<Rightarrow> jsnum \<Rightarrow> bool" where
  "FloatLT value1 value2 epsilon =
     (if SimpleFloatEQ value1 value2 then False
      else let divisor = FloatEQDivisor value1 value2
           in jlt (jdiv (jsub value1 value2) divisor) (jneg epsilon))"

definition FloatGT :: "jsnum \<Rightarrow> jsnum \<Rightarrow> jsnum \<Rightarrow> bool" where
  "FloatGT value1 value2 epsilon =
     (if SimpleFloatEQ value1 value2 then False
      else let divisor = FloatEQDivisor value1 value2
           in jgt (jdiv (jsub value1 value2) divisor) epsilon)"

definition FloatLE :: "jsnum \<Rightarrow> jsnum \<Rightarrow> jsnum \<Rightarrow> bool" where
  "FloatLE value1 value2 epsilon =
     (if SimpleFloatEQ value1 value2 then True else FloatLT value1 value2 (jneg epsilon))"

definition FloatGE :: "jsnum \<Rightarrow> jsnum \<Rightarrow> jsnum \<Rightarrow> bool" where
  "FloatGE value1 value2 epsilon =
     (if SimpleFloatEQ value1 value2 then True else FloatGT value1 value2 (jneg epsilon))"

section \<open>\<open>Utils.clampDegrees\<close> and the \<open>Orbiter\<close>\<close>

text \<open>
  \<^verbatim>\<open>let retval = angle % 360; if (retval < 0) { retval += 360; } return retval;\<close>
\<close>

definition clampDegrees :: "jsnum \<Rightarrow> jsnum" where
  "clampDegrees angle =
     (let retval = jmod angle (Fin 360) in
      if jlt retval (Fin 0) then jadd retval (Fin 360) else retval)"

text \<open>
  The \<open>Orbiter\<close>: \<open>threeObject\<close> is the position of the object it moves, \<open>orbitCurve\<close>
  the \<^verbatim>\<open>getPointAt\<close> of its ellipse (a function of the library, taken as given).
  The constructor sets \<open>currentAngle\<close> to \<open>initialAngle\<close>.
\<close>

record Orbiter =
  threeObject :: "jsnum \<times> jsnum \<times> jsnum"
  orbitCurve :: "jsnum \<Rightarrow> jsnum \<times> jsnum"
  initialAngle :: jsnum
  angVelDegPerSecond :: jsnum
  currentAngle :: jsnum

definition new_Orbiter ::
  "jsnum \<times> jsnum \<times> jsnum \<Rightarrow> (jsnum \<Rightarrow> jsnum \<times> jsnum) \<Rightarrow> jsnum \<Rightarrow> jsnum \<Rightarrow> Orbiter" where
  "new_Orbiter obj curve angle vel =
     \<lparr>threeObject = obj, orbitCurve = curve, initialAngle = angle,
      angVelDegPerSecond = vel, currentAngle = angle\<rparr>"

text \<open>
  \<^verbatim>\<open>this.currentAngle += (this.angVelDegPerSecond * elapsedSeconds);\<close>
  \<^verbatim>\<open>this.currentAngle = Utils.clampDegrees(this.currentAngle);\<close>
  then the object is placed at \<^verbatim>\<open>getPointAt(this.currentAngle / 360)\<close>, with z = 0.
\<close>

definition updatePosition :: "jsnum \<Rightarrow> Orbiter \<Rightarrow> Orbiter" where
  "updatePosition elapsedSeconds orb =
     (let angle1 = jadd (currentAngle orb) (jmul (angVelDegPerSecond orb) elapsedSeconds);
          angle2 = clampDegrees angle1;
          objectPosition = orbitCurve orb (jdiv angle2 (Fin 360))
      in orb\<lparr>currentAngle := angle2,
             threeObject := (fst objectPosition, snd objectPosition, Fin 0)\<rparr>)"

text \<open>An orbiter to evaluate on: the curve is immaterial to the angle.\<close>

definition unit_curve :: "jsnum \<Rightarrow> jsnum \<times> jsnum" where
  "unit_curve u = (u, u)"

definition example_orbiter :: "real \<Rightarrow> real \<Rightarrow> Orbiter" where
  "example_orbiter angle vel = new_Orbiter (Fin 0, Fin 0, Fin 0) unit_curve (Fin angle) (Fin vel)"

text \<open>The normalised angle in exact arithmetic: the representative of \<open>y\<close> modulo 360 in \<open>[0, 360)\<close>.\<close>

definition clampR :: "real \<Rightarrow> real" where
  "clampR y = (let r = fmod y 360 in if r < 0 then r + 360 else r)"
section \<open>Settings Bus (\<open>SettingsManagerImpl\<close>)\<close>

text \<open>
  \<^verbatim>\<open>type SettingsCB = (settings: SSGSettings) => void\<close>.
  A callback is a JavaScript function object: it has a reference identity (\<open>cb_ref\<close>)
  and a body that, given the published settings, mutates the scene (the world \<open>'w\<close>)
  and either returns or throws. A body that throws may already have changed the world,
  so both outcomes carry the world they leave behind. The reactions the renderer
  subscribes act on the scene only: none of them calls the manager. An \<^verbatim>\<open>async\<close>
  reaction never throws to its caller (a failure rejects its promise), so it is a body
  that returns.
\<close>

datatype 'w cb_result = Returns 'w | Throws 'w

record ('s, 'w) SettingsCB =
  cb_ref :: nat
  cb_body :: "'s \<Rightarrow> 'w \<Rightarrow> 'w cb_result"

text \<open>
  The fields of \<open>SettingsManagerImpl\<close>, together with the world the callbacks act on
  and the sequence of callback invocations made so far (\<open>calls\<close>: which function was
  called with which settings object; it only observes, no operation reads it).
\<close>

record ('s, 'w) SettingsManagerImpl =
  CurrentSettings :: 's
  PrevSettings :: 's
  settingsCallbacks :: "('s, 'w) SettingsCB list"
  world :: 'w
  calls :: "(nat \<times> 's) list"

datatype completion = Normal | Thrown

text \<open>
  \<^verbatim>\<open>for (const nextCB of this.settingsCallbacks) { nextCB(newSettings); }\<close>
  There is no \<^verbatim>\<open>try\<close> around the call: an exception leaves the loop.
\<close>

fun run_callbacks ::
  "('s, 'w) SettingsCB list \<Rightarrow> 's \<Rightarrow> 'w \<Rightarrow> (nat \<times> 's) list \<Rightarrow> ('w \<times> (nat \<times> 's) list) \<times> completion"
where
  "run_callbacks [] s w tr = ((w, tr), Normal)"
| "run_callbacks (c # cs) s w tr =
     (case cb_body c s w of
        Returns w' \<Rightarrow> run_callbacks cs s w' (tr @ [(cb_ref c, s)])
      | Throws w' \<Rightarrow> ((w', tr @ [(cb_ref c, s)]), Thrown))"

definition publishSettings ::
  "'s \<Rightarrow> ('s, 'w) SettingsManagerImpl \<Rightarrow> ('s, 'w) SettingsManagerImpl \<times> completion"
where
  "publishSettings newSettings m =
     (let m1 = m\<lparr>PrevSettings := CurrentSettings m, CurrentSettings := newSettings\<rparr>;
          r = run_callbacks (settingsCallbacks m1) newSettings (world m1) (calls m1)
      in (m1\<lparr>world := fst (fst r), calls := snd (fst r)\<rparr>, snd r))"

text \<open>
  \<^verbatim>\<open>if (settingsCB) { this.settingsCallbacks.push(settingsCB); }\<close>
  The argument is \<open>None\<close> for \<^verbatim>\<open>null\<close> or \<^verbatim>\<open>undefined\<close>; a function object is always truthy.
\<close>

fun subscribeSettings ::
  "('s, 'w) SettingsCB option \<Rightarrow> ('s, 'w) SettingsManagerImpl \<Rightarrow> ('s, 'w) SettingsManagerImpl"
where
  "subscribeSettings None m = m"
| "subscribeSettings (Some settingsCB) m =
     m\<lparr>settingsCallbacks := settingsCallbacks m @ [settingsCB]\<rparr>"


text \<open>The invocations a publish of \<open>s\<close> makes when every callback of \<open>cs\<close> returns.\<close>

definition invocations :: "('s, 'w) SettingsCB list \<Rightarrow> 's \<Rightarrow> (nat \<times> 's) list" where
  "invocations cs s = map (\<lambda>c. (cb_ref c, s)) cs"

text \<open>The callbacks up to and including the first one that throws, and the world they leave.\<close>

fun reached :: "('s, 'w) SettingsCB list \<Rightarrow> 's \<Rightarrow> 'w \<Rightarrow> ('s, 'w) SettingsCB list" where
  "reached [] s w = []"
| "reached (c # cs) s w =
     (case cb_body c s w of
        Returns w' \<Rightarrow> c # reached cs s w'
      | Throws w' \<Rightarrow> [c])"

text \<open>Example callbacks: one that returns, one that throws, both over a world without state.\<close>

definition returning_cb :: "nat \<Rightarrow> (nat, unit) SettingsCB" where
  "returning_cb i = \<lparr>cb_ref = i, cb_body = (\<lambda>s w. Returns w)\<rparr>"

definition throwing_cb :: "nat \<Rightarrow> (nat, unit) SettingsCB" where
  "throwing_cb i = \<lparr>cb_ref = i, cb_body = (\<lambda>s w. Throws w)\<rparr>"

definition example_manager :: "(nat, unit) SettingsCB list \<Rightarrow> (nat, unit) SettingsManagerImpl" where
  "example_manager cs =
     \<lparr>CurrentSettings = 0, PrevSettings = 0, settingsCallbacks = cs, world = (), calls = []\<rparr>"







section \<open>Animation step (\<open>SSGRenderer.updateAnimation\<close>)\<close>

text \<open>The settings the animation step reads, and the clock fields of the renderer.\<close>

record SSGSettings =
  Animate :: bool
  AnimationSpeed :: jsnum
  AnimationTimeScale :: jsnum

record AnimationState =
  actualStartTime :: "jsnum option"
  lastActualTime :: "jsnum option"
  simTime :: "jsnum option"
  orbiters :: "Orbiter list"

text \<open>
  \<^verbatim>\<open>const actualTime = actualMillis / 1000;\<close>; an undefined \<open>lastActualTime\<close> is set to
  it first; \<^verbatim>\<open>let actualElapsedSeconds = actualTime - this.lastActualTime;\<close>
\<close>

definition actualTime :: "jsnum \<Rightarrow> jsnum" where
  "actualTime actualMillis = jdiv actualMillis (Fin 1000)"

definition actualElapsedSeconds :: "jsnum \<Rightarrow> AnimationState \<Rightarrow> jsnum" where
  "actualElapsedSeconds actualMillis st =
     jsub (actualTime actualMillis)
          (case lastActualTime st of None \<Rightarrow> actualTime actualMillis | Some t \<Rightarrow> t)"

text \<open>
  The renderer with the epsilon comparison:
  \<^verbatim>\<open>let speedScale = 0;\<close>
  \<^verbatim>\<open>if (Utils.FloatNE(SettingsManager.CurrentSettings.AnimationSpeed, 0)) {\<close>
  \<^verbatim>\<open>    speedScale = SettingsManager.CurrentSettings.AnimationTimeScale; }\<close>
  \<^verbatim>\<open>let simElapsedSeconds = actualElapsedSeconds * speedScale;\<close>
  \<^verbatim>\<open>this.simTime += simElapsedSeconds;\<close>
  and every orbiter is updated with \<open>simElapsedSeconds\<close>. The step does not read
  \<open>Animate\<close>. (Drawing and the look-at update that follow do not touch the clock.)
\<close>

definition speedScale2 :: "SSGSettings \<Rightarrow> jsnum" where
  "speedScale2 cs =
     (if FloatNE (AnimationSpeed cs) (Fin 0) FloatingPointEqualityEpsilon
      then AnimationTimeScale cs else Fin 0)"

definition simElapsedSeconds2 :: "SSGSettings \<Rightarrow> jsnum \<Rightarrow> AnimationState \<Rightarrow> jsnum" where
  "simElapsedSeconds2 cs actualMillis st = jmul (actualElapsedSeconds actualMillis st) (speedScale2 cs)"

definition updateAnimation2 :: "SSGSettings \<Rightarrow> jsnum \<Rightarrow> AnimationState \<Rightarrow> AnimationState" where
  "updateAnimation2 cs actualMillis st =
     st\<lparr>actualStartTime :=
          Some (case actualStartTime st of None \<Rightarrow> actualTime actualMillis | Some t \<Rightarrow> t),
        lastActualTime := Some (actualTime actualMillis),
        simTime :=
          Some (jadd (case simTime st of None \<Rightarrow> Fin 0 | Some s \<Rightarrow> s)
                     (simElapsedSeconds2 cs actualMillis st)),
        orbiters := map (updatePosition (simElapsedSeconds2 cs actualMillis st)) (orbiters st)\<rparr>"

text \<open>
  The older renderer: the whole step is guarded by \<^verbatim>\<open>if (CurrentSettings.Animate)\<close>,
  and \<^verbatim>\<open>let speedScale = 1; if (CurrentSettings.AnimationSpeed != 0) { speedScale = AnimationTimeScale; }\<close>
\<close>

definition speedScale1 :: "SSGSettings \<Rightarrow> jsnum" where
  "speedScale1 cs = (if jeq (AnimationSpeed cs) (Fin 0) then Fin 1 else AnimationTimeScale cs)"

definition simElapsedSeconds1 :: "SSGSettings \<Rightarrow> jsnum \<Rightarrow> AnimationState \<Rightarrow> jsnum" where
  "simElapsedSeconds1 cs actualMillis st = jmul (actualElapsedSeconds actualMillis st) (speedScale1 cs)"

definition updateAnimation1 :: "SSGSettings \<Rightarrow> jsnum \<Rightarrow> AnimationState \<Rightarrow> AnimationState" where
  "updateAnimation1 cs actualMillis st =
     (if Animate cs then
        st\<lparr>actualStartTime :=
             Some (case actualStartTime st of None \<Rightarrow> actualTime actualMillis | Some t \<Rightarrow> t),
           lastActualTime := Some (actualTime actualMillis),
           simTime :=
             Some (jadd (case simTime st of None \<Rightarrow> Fin 0 | Some s \<Rightarrow> s)
                        (simElapsedSeconds1 cs actualMillis st)),
           orbiters := map (updatePosition (simElapsedSeconds1 cs actualMillis st)) (orbiters st)\<rparr>
      else st)"

section \<open>\<open>Utils.humanTime\<close>\<close>

subsection \<open>\<open>Number.prototype.toFixed(3)\<close>\<close>

definition digit :: "nat \<Rightarrow> char" where
  "digit d = ''0123456789'' ! d"

function dec :: "nat \<Rightarrow> string" where
  "dec n = (if n < 10 then [digit n] else dec (n div 10) @ [digit (n mod 10)])"
  by pat_completeness auto
termination
  by (relation "measure id") auto

declare dec.simps [simp del]

text \<open>
  \<open>toFixed(3)\<close>: NaN and the infinities print their names. Otherwise the sign is
  printed for a negative value, and the magnitude \<open>x\<close> as the integer \<open>n\<close> nearest to
  \<open>1000 * x\<close> (the larger of two equally near), padded to four digits, with a point
  before the last three. From \<open>10^21\<close> on JavaScript prints the exponent notation of
  \<open>toString\<close>, which is not modelled: the result is \<open>None\<close> there.
\<close>

definition fixed3 :: "nat \<Rightarrow> string" where
  "fixed3 n =
     (let m0 = dec n;
          m = replicate (4 - length m0) (CHR ''0'') @ m0;
          k = length m
      in take (k - 3) m @ ''.'' @ drop (k - 3) m)"

definition toFixed3 :: "jsnum \<Rightarrow> string option" where
  "toFixed3 v =
     (case v of
        NaN \<Rightarrow> Some ''NaN''
      | PInf \<Rightarrow> Some ''Infinity''
      | NInf \<Rightarrow> Some ''-Infinity''
      | Fin x \<Rightarrow>
          if 10 ^ 21 \<le> \<bar>x\<bar> then None
          else Some ((if x < 0 then ''-'' else '''')
                     @ fixed3 (nat \<lfloor>\<bar>x\<bar> * 1000 + 1 / 2\<rfloor>)))"

subsection \<open>The formatter that compares with \<open>FloatEQ\<close>\<close>

text \<open>
  \<^verbatim>\<open>class ScaleFactor { factor; unit; singularSuffix?; pluralSuffix? }\<close> and the table
  \<open>scaleFactors\<close>.
\<close>

record ScaleFactor =
  factor :: jsnum
  unit :: string
  singularSuffix :: "string option"
  pluralSuffix :: "string option"

definition scaleFactors :: "ScaleFactor list" where
  "scaleFactors =
     [\<lparr>factor = Fin 60, unit = ''minute'', singularSuffix = None, pluralSuffix = None\<rparr>,
      \<lparr>factor = Fin 60, unit = ''hour'', singularSuffix = None, pluralSuffix = None\<rparr>,
      \<lparr>factor = Fin 24, unit = ''day'', singularSuffix = None, pluralSuffix = None\<rparr>,
      \<lparr>factor = Fin 365, unit = ''year'', singularSuffix = None, pluralSuffix = None\<rparr>,
      \<lparr>factor = Fin 10, unit = ''decade'', singularSuffix = None, pluralSuffix = None\<rparr>,
      \<lparr>factor = Fin 10, unit = ''centur'', singularSuffix = Some ''y'', pluralSuffix = Some ''ies''\<rparr>]"

text \<open>
  The local variables of \<open>humanTime\<close> that \<open>checkScale\<close> assigns (\<open>retSingular\<close> and
  \<open>retPlural\<close> are the locals \<open>singularSuffix\<close> and \<open>pluralSuffix\<close>).
\<close>

record HumanTimeVars =
  retTime :: jsnum
  retUnit :: string
  retSingular :: string
  retPlural :: string

text \<open>
  \<^verbatim>\<open>if (retTime > scale.factor) { retTime /= scale.factor; retUnit = scale.unit;\<close>
  \<^verbatim>\<open>  singularSuffix = scale.singularSuffix ?? singularSuffix; ...; return true; } return false;\<close>
\<close>

definition checkScale :: "ScaleFactor \<Rightarrow> HumanTimeVars \<Rightarrow> HumanTimeVars \<times> bool" where
  "checkScale scale vars =
     (if jgt (retTime vars) (factor scale) then
        (vars\<lparr>retTime := jdiv (retTime vars) (factor scale),
              retUnit := unit scale,
              retSingular := (case singularSuffix scale of None \<Rightarrow> retSingular vars | Some x \<Rightarrow> x),
              retPlural := (case pluralSuffix scale of None \<Rightarrow> retPlural vars | Some x \<Rightarrow> x)\<rparr>,
         True)
      else (vars, False))"

text \<open>\<^verbatim>\<open>for (const nextFactor of scaleFactors) { if (!checkScale(nextFactor)) { break; } }\<close>\<close>

fun scaleLoop :: "ScaleFactor list \<Rightarrow> HumanTimeVars \<Rightarrow> HumanTimeVars" where
  "scaleLoop [] vars = vars"
| "scaleLoop (nextFactor # rest) vars =
     (case checkScale nextFactor vars of
        (vars', True) \<Rightarrow> scaleLoop rest vars'
      | (vars', False) \<Rightarrow> vars')"

text \<open>
  The variables after the loop, started from \<^verbatim>\<open>retTime = Math.abs(totalSeconds)\<close>,
  \<^verbatim>\<open>retUnit = "second"\<close>, \<^verbatim>\<open>singularSuffix = ""\<close>, \<^verbatim>\<open>pluralSuffix = "s"\<close>.
\<close>

definition scaled :: "jsnum \<Rightarrow> HumanTimeVars" where
  "scaled totalSeconds =
     scaleLoop scaleFactors
       \<lparr>retTime = jabs totalSeconds, retUnit = ''second'', retSingular = '''', retPlural = ''s''\<rparr>"

text \<open>
  \<^verbatim>\<open>let sign = totalSeconds < 0 ? "-" : "";\<close> is computed and never used; the result is
  \<^verbatim>\<open>`${retTime.toFixed(3)} ${retUnit}${(Utils.FloatEQ(retTime, 1, 0.0005)) ? singularSuffix : pluralSuffix}`\<close>.
  The literal \<open>0.0005\<close> denotes the binary64 value nearest to it.
\<close>

definition humanTimeEpsilon :: jsnum where
  "humanTimeEpsilon = rd (5 / 10000)"

definition humanTime :: "jsnum \<Rightarrow> string option" where
  "humanTime totalSeconds =
     (let sign = (if jlt totalSeconds (Fin 0) then ''-'' else '''');
          vars = scaled totalSeconds
      in map_option
           (\<lambda>fixed. fixed @ '' '' @ retUnit vars
              @ (if FloatEQ (retTime vars) (Fin 1) humanTimeEpsilon then retSingular vars
                 else retPlural vars))
           (toFixed3 (retTime vars)))"

subsection \<open>The formatter of the other \<open>Utils\<close>\<close>

text \<open>
  It starts from \<^verbatim>\<open>retTime = totalSeconds\<close> and \<^verbatim>\<open>retUnit = "seconds"\<close>, its table ends
  with the unit \<open>century\<close>, and it returns
  \<^verbatim>\<open>`${retTime.toFixed(3)} ${retUnit}${(retTime == 1) ? '' : 's'}`\<close>.
\<close>

definition scaleFactors2 :: "(jsnum \<times> string) list" where
  "scaleFactors2 =
     [(Fin 60, ''minute''), (Fin 60, ''hour''), (Fin 24, ''day''),
      (Fin 365, ''year''), (Fin 10, ''decade''), (Fin 10, ''century'')]"

fun scaleLoop2 :: "(jsnum \<times> string) list \<Rightarrow> jsnum \<times> string \<Rightarrow> jsnum \<times> string" where
  "scaleLoop2 [] (t, u) = (t, u)"
| "scaleLoop2 ((f, newUnit) # rest) (t, u) =
     (if jgt t f then scaleLoop2 rest (jdiv t f, newUnit) else (t, u))"

definition humanTime2 :: "jsnum \<Rightarrow> string option" where
  "humanTime2 totalSeconds =
     (let r = scaleLoop2 scaleFactors2 (totalSeconds, ''seconds'')
      in map_option (\<lambda>fixed. fixed @ '' '' @ snd r @ (if jeq (fst r) (Fin 1) then '''' else ''s''))
           (toFixed3 (fst r)))"

section \<open>Camera fit (\<open>SSGRenderer.fitCameraToObject\<close>)\<close>

text \<open>
  Vectors and boxes of the scene library. \<open>getCenter\<close> and \<open>getSize\<close> are the
  library's: an empty box (some maximum below its minimum) has the center and the size
  \<open>(0, 0, 0)\<close>, any other box the center \<open>(min + max) * 0.5\<close> and the size \<open>max - min\<close>.
\<close>

datatype Vector3 = Vector3 (vx: jsnum) (vy: jsnum) (vz: jsnum)

record Box3 =
  box_min :: Vector3
  box_max :: Vector3

definition origin :: Vector3 where
  "origin = Vector3 (Fin 0) (Fin 0) (Fin 0)"

definition isEmpty :: "Box3 \<Rightarrow> bool" where
  "isEmpty b =
     (if jlt (vx (box_max b)) (vx (box_min b)) then True
      else if jlt (vy (box_max b)) (vy (box_min b)) then True
      else jlt (vz (box_max b)) (vz (box_min b)))"

definition getCenter :: "Box3 \<Rightarrow> Vector3" where
  "getCenter b =
     (if isEmpty b then origin
      else Vector3 (jmul (jadd (vx (box_min b)) (vx (box_max b))) (Fin (1 / 2)))
                   (jmul (jadd (vy (box_min b)) (vy (box_max b))) (Fin (1 / 2)))
                   (jmul (jadd (vz (box_min b)) (vz (box_max b))) (Fin (1 / 2))))"

definition getSize :: "Box3 \<Rightarrow> Vector3" where
  "getSize b =
     (if isEmpty b then origin
      else Vector3 (jsub (vx (box_max b)) (vx (box_min b)))
                   (jsub (vy (box_max b)) (vy (box_min b)))
                   (jsub (vz (box_max b)) (vz (box_min b))))"

text \<open>The camera and orbit-control fields the fit assigns.\<close>

record Camera =
  fov :: jsnum
  position_z :: jsnum
  far :: jsnum

record OrbitControls =
  target :: Vector3
  maxDistance :: jsnum

record FitState =
  camera :: Camera
  orbitControls :: "OrbitControls option"

text \<open>
  The distance computation shared by the two renderers. \<open>tanf\<close> is \<^verbatim>\<open>Math.tan\<close> and
  \<open>mathPI\<close> is \<^verbatim>\<open>Math.PI\<close>, both taken as given; the literal \<open>1.05\<close> denotes the nearest
  binary64 value.
  \<^verbatim>\<open>const fov = this.camera.fov * (Math.PI / 180);\<close>
  \<^verbatim>\<open>let ySize = Math.max(size.y, size.x / this.canvasAspect);\<close>
  \<^verbatim>\<open>let cameraYDistance = Math.abs(ySize / 2 / Math.tan(fov / 2)); cameraYDistance *= offset;\<close>
  \<^verbatim>\<open>const cameraToFarEdge = (minZ < 0) ? -minZ + cameraDistance : cameraDistance - minZ;\<close>
\<close>

definition cameraDistance :: "(jsnum \<Rightarrow> jsnum) \<Rightarrow> jsnum \<Rightarrow> Box3 \<Rightarrow> jsnum \<Rightarrow> Camera \<Rightarrow> jsnum" where
  "cameraDistance tanf mathPI boundingBox canvasAspect cam =
     (let offset = rd (105 / 100);
          size = getSize boundingBox;
          fovRad = jmul (fov cam) (jdiv mathPI (Fin 180));
          ySize = jmax (vy size) (jdiv (vx size) canvasAspect);
          cameraYDistance = jabs (jdiv (jdiv ySize (Fin 2)) (tanf (jdiv fovRad (Fin 2))))
      in jmul cameraYDistance offset)"

definition cameraToFarEdge :: "(jsnum \<Rightarrow> jsnum) \<Rightarrow> jsnum \<Rightarrow> Box3 \<Rightarrow> jsnum \<Rightarrow> Camera \<Rightarrow> jsnum" where
  "cameraToFarEdge tanf mathPI boundingBox canvasAspect cam =
     (let d = cameraDistance tanf mathPI boundingBox canvasAspect cam;
          minZ = vz (box_min boundingBox)
      in if jlt minZ (Fin 0) then jadd (jneg minZ) d else jsub d minZ)"

text \<open>
  The renderer with a look-at target. \<open>boundingBox\<close> is the box of the scene and
  \<open>lookAtTarget\<close> the world position of the look-at object, \<open>None\<close> when
  \<^verbatim>\<open>this.lookAtTarget\<close> is undefined (both are computed by the scene library).
  \<^verbatim>\<open>if (this.orbitControls) { this.orbitControls.maxDistance = cameraToFarEdge * 2; ...\<close>
  \<^verbatim>\<open>  const lookAtVec = new Vector3(0, 0, 0);\<close>
  \<^verbatim>\<open>  if (this.lookAtTarget) { this.lookAtTarget.getWorldPosition(lookAtVec); }\<close>
  \<^verbatim>\<open>  this.orbitControls.target = lookAtVec; ... }\<close>
\<close>

definition fitCameraToObject2 ::
  "(jsnum \<Rightarrow> jsnum) \<Rightarrow> jsnum \<Rightarrow> Box3 \<Rightarrow> jsnum \<Rightarrow> Vector3 option \<Rightarrow> FitState \<Rightarrow> FitState" where
  "fitCameraToObject2 tanf mathPI boundingBox canvasAspect lookAtTarget st =
     (let d = cameraDistance tanf mathPI boundingBox canvasAspect (camera st);
          e = cameraToFarEdge tanf mathPI boundingBox canvasAspect (camera st);
          lookAtVec = (case lookAtTarget of None \<Rightarrow> Vector3 (Fin 0) (Fin 0) (Fin 0) | Some p \<Rightarrow> p)
      in st\<lparr>camera := (camera st)\<lparr>position_z := d, far := jmul e (Fin 3)\<rparr>,
            orbitControls :=
              map_option (\<lambda>oc. oc\<lparr>maxDistance := jmul e (Fin 2), target := lookAtVec\<rparr>)
                (orbitControls st)\<rparr>)"

text \<open>
  The older renderer has no look-at target:
  \<^verbatim>\<open>if (this.orbitControls) { this.orbitControls.target = center;\<close>
  \<^verbatim>\<open>  this.orbitControls.maxDistance = cameraToFarEdge * 2; ... }\<close>
  Its field is declared \<^verbatim>\<open>private orbitControls: OrbitControls = null!;\<close> and nothing
  assigns it, so the states of that renderer have \<open>orbitControls = None\<close>.
\<close>

definition fitCameraToObject1 ::
  "(jsnum \<Rightarrow> jsnum) \<Rightarrow> jsnum \<Rightarrow> Box3 \<Rightarrow> jsnum \<Rightarrow> FitState \<Rightarrow> FitState" where
  "fitCameraToObject1 tanf mathPI boundingBox canvasAspect st =
     (let d = cameraDistance tanf mathPI boundingBox canvasAspect (camera st);
          e = cameraToFarEdge tanf mathPI boundingBox canvasAspect (camera st)
      in st\<lparr>camera := (camera st)\<lparr>position_z := d, far := jmul e (Fin 3)\<rparr>,
            orbitControls :=
              map_option (\<lambda>oc. oc\<lparr>target := getCenter boundingBox, maxDistance := jmul e (Fin 2)\<rparr>)
                (orbitControls st)\<rparr>)"

text \<open>Values to evaluate on.\<close>

definition example_tan :: "jsnum \<Rightarrow> jsnum" where
  "example_tan a = Fin 1"

definition example_fit_state :: FitState where
  "example_fit_state =
     \<lparr>camera = \<lparr>fov = Fin 90, position_z = Fin 0, far = Fin 1\<rparr>,
      orbitControls = Some \<lparr>target = Vector3 (Fin 9) (Fin 9) (Fin 9), maxDistance = Fin 1\<rparr>\<rparr>"

definition older_fit_state :: FitState where
  "older_fit_state =
     \<lparr>camera = \<lparr>fov = Fin 90, position_z = Fin 0, far = Fin 1\<rparr>, orbitControls = None\<rparr>"

definition example_box :: "real \<Rightarrow> real \<Rightarrow> Box3" where
  "example_box lo hi = \<lparr>box_min = Vector3 (Fin lo) (Fin lo) (Fin lo), box_max = Vector3 (Fin hi) (Fin hi) (Fin hi)\<rparr>"

section \<open>The tree of \<open>CelestialObject\<close>s\<close>

text \<open>
  The payload handed to the constructor is a parsed JSON value: \<^verbatim>\<open>null\<close>, or an object
  with its own properties (\<open>'f\<close>: name, radii, colours, ...), possibly a property
  \<open>ParentObject\<close> of its own (\<open>'j\<close>, some JSON value) and possibly a list
  \<open>ChildObjects\<close> of further payloads.
\<close>

datatype ('f, 'j) partial = PNull | PObj 'f "'j option" "('f, 'j) partial list option"

text \<open>
  Objects live in a store, a list addressed by position; \<^verbatim>\<open>new\<close> appends. A reference
  held in \<open>ParentObject\<close> is either a \<open>CelestialObject\<close> of the store or the JSON value
  that \<^verbatim>\<open>Object.assign\<close> copied from the payload.
\<close>

datatype 'j pref = Node nat | Json 'j

record ('f, 'j) CelestialObject =
  ownFields :: "'f option"
  ParentObject :: "'j pref option"
  ChildObjects :: "nat list"
  Obj3D :: "nat option"

type_synonym ('f, 'j) heap = "('f, 'j) CelestialObject list"

text \<open>
  The object after \<^verbatim>\<open>Object.assign(this, partialObj); this.ChildObjects = [];\<close>
  (with \<open>f = None\<close>: the defaults of the class, for a \<^verbatim>\<open>null\<close> payload).
\<close>

definition assigned :: "'f option \<Rightarrow> 'j option \<Rightarrow> ('f, 'j) CelestialObject" where
  "assigned f par =
     \<lparr>ownFields = f, ParentObject = map_option Json par, ChildObjects = [], Obj3D = None\<rparr>"

text \<open>
  \<^verbatim>\<open>childObject.ParentObject = this; this.ChildObjects.push(childObject);\<close>
\<close>

definition attach :: "nat \<Rightarrow> nat \<Rightarrow> ('f, 'j) heap \<Rightarrow> ('f, 'j) heap" where
  "attach this childObject h1 =
     (let h2 = h1[childObject := (h1 ! childObject)\<lparr>ParentObject := Some (Node this)\<rparr>]
      in h2[this := (h2 ! this)\<lparr>ChildObjects := ChildObjects (h2 ! this) @ [childObject]\<rparr>])"

text \<open>
  The TypeScript constructor: it guards with \<^verbatim>\<open>if (partialObj)\<close> and
  \<^verbatim>\<open>if (partialObj.ChildObjects && partialObj.ChildObjects.length > 0)\<close>, then loops
  \<^verbatim>\<open>for (const childPartial of partialObj.ChildObjects) { const childObject = new CelestialObject(childPartial); ... }\<close>.
  \<open>construct\<close> returns the address of the new object and the store.
\<close>

fun construct :: "('f, 'j) partial \<Rightarrow> ('f, 'j) heap \<Rightarrow> nat \<times> ('f, 'j) heap"
  and construct_children :: "nat \<Rightarrow> ('f, 'j) partial list \<Rightarrow> ('f, 'j) heap \<Rightarrow> ('f, 'j) heap"
where
  "construct PNull h = (length h, h @ [assigned None None])"
| "construct (PObj f par None) h = (length h, h @ [assigned (Some f) par])"
| "construct (PObj f par (Some cs)) h =
     (length h, construct_children (length h) cs (h @ [assigned (Some f) par]))"
| "construct_children this [] h = h"
| "construct_children this (childPartial # rest) h =
     (case construct childPartial h of
        (childObject, h1) \<Rightarrow> construct_children this rest (attach this childObject h1))"

text \<open>
  The compiled JavaScript constructor has no guard: it throws a \<open>TypeError\<close> (\<open>None\<close>)
  on a \<^verbatim>\<open>null\<close> payload and on a payload without \<open>ChildObjects\<close>.
\<close>

fun construct_js :: "('f, 'j) partial \<Rightarrow> ('f, 'j) heap \<Rightarrow> (nat \<times> ('f, 'j) heap) option"
  and construct_children_js ::
    "nat \<Rightarrow> ('f, 'j) partial list \<Rightarrow> ('f, 'j) heap \<Rightarrow> ('f, 'j) heap option"
where
  "construct_js PNull h = None"
| "construct_js (PObj f par None) h = None"
| "construct_js (PObj f par (Some cs)) h =
     map_option (Pair (length h))
       (construct_children_js (length h) cs (h @ [assigned (Some f) par]))"
| "construct_children_js this [] h = Some h"
| "construct_children_js this (childPartial # rest) h =
     (case construct_js childPartial h of
        None \<Rightarrow> None
      | Some (childObject, h1) \<Rightarrow> construct_children_js this rest (attach this childObject h1))"

text \<open>
  The only assignment to a property of a \<open>CelestialObject\<close> outside the constructor:
  the scene builder's \<^verbatim>\<open>rootObject.Obj3D = ...\<close>.
\<close>

definition setObj3D :: "nat \<Rightarrow> nat option \<Rightarrow> ('f, 'j) heap \<Rightarrow> ('f, 'j) heap" where
  "setObj3D b v h = h[b := (h ! b)\<lparr>Obj3D := v\<rparr>]"

text \<open>
  Following \<open>ParentObject\<close> from an object, at most \<open>n\<close> times, to the object that has
  no \<open>CelestialObject\<close> as parent; \<open>None\<close> when \<open>n\<close> steps do not reach one.
\<close>

fun climb :: "('f, 'j) heap \<Rightarrow> nat \<Rightarrow> nat \<Rightarrow> nat option" where
  "climb h 0 a = None"
| "climb h (Suc n) a =
     (case ParentObject (h ! a) of
        Some (Node p) \<Rightarrow> climb h n p
      | _ \<Rightarrow> Some a)"

text \<open>The number of payloads in a payload.\<close>

fun nodes :: "('f, 'j) partial \<Rightarrow> nat" where
  "nodes PNull = 1"
| "nodes (PObj f par None) = 1"
| "nodes (PObj f par (Some cs)) = 1 + sum_list (map nodes cs)"

text \<open>
  The invariant of the objects from address \<open>r\<close> on: the children of an object come
  after it, are distinct and point back to it, and every object but \<open>r\<close> points to a
  parent, between \<open>r\<close> and itself, that lists it.
\<close>

definition tree_ok :: "('f, 'j) heap \<Rightarrow> nat \<Rightarrow> bool" where
  "tree_ok h r \<longleftrightarrow>
     (\<forall>a \<in> {r..<length h}.
        (\<forall>c \<in> set (ChildObjects (h ! a)).
           a < c \<and> c < length h \<and> ParentObject (h ! c) = Some (Node a))
        \<and> distinct (ChildObjects (h ! a))
        \<and> (a \<noteq> r \<longrightarrow>
             (\<exists>p \<in> {r..<a}. ParentObject (h ! a) = Some (Node p) \<and> a \<in> set (ChildObjects (h ! p)))))"

text \<open>
  A payload to evaluate on (a star with a moonless planet and a planet whose payload
  carries a \<open>ParentObject\<close> and one \<^verbatim>\<open>null\<close> child), and the store it gives; and a
  payload in which every object has its \<open>ChildObjects\<close>, which the JavaScript
  constructor accepts.
\<close>

definition example_payload :: "(unit, unit) partial" where
  "example_payload =
     PObj () None (Some [PObj () None None, PObj () (Some ()) (Some [PNull])])"

definition example_payload_js :: "(unit, unit) partial" where
  "example_payload_js = PObj () None (Some [PObj () None (Some [])])"

definition example_heap_js :: "(unit, unit) heap" where
  "example_heap_js =
     [\<lparr>ownFields = Some (), ParentObject = None, ChildObjects = [1], Obj3D = None\<rparr>,
      \<lparr>ownFields = Some (), ParentObject = Some (Node 0), ChildObjects = [], Obj3D = None\<rparr>]"

definition example_heap :: "(unit, unit) heap" where
  "example_heap =
     [\<lparr>ownFields = Some (), ParentObject = None, ChildObjects = [1, 2], Obj3D = None\<rparr>,
      \<lparr>ownFields = Some (), ParentObject = Some (Node 0), ChildObjects = [], Obj3D = None\<rparr>,
      \<lparr>ownFields = Some (), ParentObject = Some (Node 0), ChildObjects = [3], Obj3D = None\<rparr>,
      \<lparr>ownFields = None, ParentObject = Some (Node 2), ChildObjects = [], Obj3D = None\<rparr>]"

section \<open>Rounding: lemmas\<close>

lemma pow2_pos: "0 < pow2 e" by (simp add: pow2_def)

lemma pow2_mono: "a \<le> b \<Longrightarrow> pow2 a \<le> pow2 b"
  by (simp add: pow2_def power_int_increasing)

lemma pow2_strict_mono: "a < b \<Longrightarrow> pow2 a < pow2 b"
  by (simp add: pow2_def power_int_strict_increasing)

lemma pow2_less: "pow2 a < pow2 b \<longleftrightarrow> a < b"
  using pow2_strict_mono [of a b] pow2_mono [of b a] by (cases "a < b") auto

lemma pow2_le: "pow2 a \<le> pow2 b \<longleftrightarrow> a \<le> b"
  using pow2_strict_mono [of b a] pow2_mono [of a b] by (cases "a \<le> b") auto

lemma expo_from_found:
  "e - int n \<le> e' \<Longrightarrow> e' \<le> e \<Longrightarrow> pow2 e' \<le> a \<Longrightarrow> a < pow2 (e' + 1) \<Longrightarrow> expo_from n e a = e'"
proof (induction n arbitrary: e)
  case 0
  then show ?case by simp
next
  case (Suc n)
  show ?case
  proof (cases "pow2 e \<le> a")
    case True
    then have "pow2 e < pow2 (e' + 1)" using Suc.prems by simp
    then have "e \<le> e'" by (simp add: pow2_less)
    then show ?thesis using True Suc.prems by simp
  next
    case False
    then have "pow2 e' < pow2 e" using Suc.prems by simp
    then have "e' \<le> e - 1" by (simp add: pow2_less)
    then show ?thesis using False Suc by simp
  qed
qed

lemma expo_from_small:
  "a < pow2 (e - int n) \<Longrightarrow> expo_from n e a = e - int n"
proof (induction n arbitrary: e)
  case 0
  then show ?case by simp
next
  case (Suc n)
  have "pow2 (e - int (Suc n)) \<le> pow2 e" by (rule pow2_mono) simp
  then have "\<not> pow2 e \<le> a" using Suc.prems by simp
  moreover have "expo_from n (e - 1) a = e - 1 - int n"
    using Suc.prems by (intro Suc.IH) (simp add: algebra_simps)
  ultimately show ?case by simp
qed

lemma expo_eq:
  "- 1022 \<le> e \<Longrightarrow> e \<le> 1023 \<Longrightarrow> pow2 e \<le> \<bar>x\<bar> \<Longrightarrow> \<bar>x\<bar> < pow2 (e + 1) \<Longrightarrow> expo x = e"
  unfolding expo_def by (rule expo_from_found) simp_all

lemma expo_subnormal: "\<bar>x\<bar> < pow2 (- 1022) \<Longrightarrow> expo x = - 1022"
  unfolding expo_def using expo_from_small [of "\<bar>x\<bar>" 1023 2045] by simp

lemma round_even_of_int: "round_even (of_int k) = k"
  by (simp add: round_even_def)

lemma round_even_le: "y \<le> of_int K \<Longrightarrow> round_even y \<le> K"
proof -
  assume h: "y \<le> of_int K"
  have f: "\<lfloor>y\<rfloor> \<le> K" using h by (simp add: floor_le_iff)
  show ?thesis
  proof (cases "\<lfloor>y\<rfloor> = K")
    case True
    then have "y = of_int K" using h by (metis of_int_floor_le order_antisym)
    then show ?thesis by (simp add: round_even_of_int)
  next
    case False
    then have "\<lfloor>y\<rfloor> + 1 \<le> K" using f by simp
    then show ?thesis by (simp add: round_even_def Let_def)
  qed
qed

lemma round_even_ge: "of_int K \<le> y \<Longrightarrow> K \<le> round_even y"
proof -
  assume "of_int K \<le> y"
  then have "K \<le> \<lfloor>y\<rfloor>" by (simp add: le_floor_iff)
  then show ?thesis by (simp add: round_even_def Let_def)
qed

lemma expo_range: "- 1022 \<le> expo x \<and> expo x \<le> 1023"
proof -
  have "e - int n \<le> expo_from n e a \<and> expo_from n e a \<le> e" for n e a
  proof (induction n arbitrary: e)
    case 0
    then show ?case by simp
  next
    case (Suc n)
    from Suc [of "e - 1"] show ?case by auto
  qed
  from this [of 1023 2045 "\<bar>x\<bar>"] show ?thesis by (simp add: expo_def)
qed

lemma expo_from_lower: "expo_from n e a = e - int n \<or> pow2 (expo_from n e a) \<le> a"
proof (induction n arbitrary: e)
  case 0
  then show ?case by simp
next
  case (Suc n)
  from Suc [of "e - 1"] show ?case by (auto simp: algebra_simps)
qed

lemma expo_lower: "expo x = - 1022 \<or> pow2 (expo x) \<le> \<bar>x\<bar>"
  using expo_from_lower [of 2045 1023 "\<bar>x\<bar>"] by (simp add: expo_def)

lemma expo_upper: "\<bar>x\<bar> < pow2 (e + 1) \<Longrightarrow> - 1022 \<le> e \<Longrightarrow> expo x \<le> e"
proof -
  assume h: "\<bar>x\<bar> < pow2 (e + 1)" "- 1022 \<le> e"
  from expo_lower [of x] show ?thesis
  proof
    assume "expo x = - 1022" then show ?thesis using h by simp
  next
    assume "pow2 (expo x) \<le> \<bar>x\<bar>"
    then have "pow2 (expo x) < pow2 (e + 1)" using h by simp
    then show ?thesis by (simp add: pow2_less)
  qed
qed

lemma rd_at:
  assumes "expo x = e"
  shows "rd x = (let r = of_int (round_even (x / pow2 (e - 52))) * pow2 (e - 52)
                 in if pow2 1024 \<le> r then PInf else if r \<le> - pow2 1024 then NInf else Fin r)"
  using assms by (simp add: rd_def Let_def)

lemma rd_0: "rd 0 = Fin 0"
proof -
  have "0 < pow2 1024" by (rule pow2_pos)
  then show ?thesis by (simp add: rd_def round_even_def)
qed

lemma rd_eval:
  assumes "- 1022 \<le> e" "e \<le> 1023" "pow2 e \<le> \<bar>x\<bar>" "\<bar>x\<bar> < pow2 (e + 1)"
    and "of_int (round_even (x / pow2 (e - 52))) * pow2 (e - 52) = r"
    and "\<bar>r\<bar> < pow2 1024"
  shows "rd x = Fin r"
proof -
  have "expo x = e" using assms(1-4) by (rule expo_eq)
  then show ?thesis using assms(5,6) by (auto simp: rd_at Let_def)
qed

lemma pow2_nonpos: "q \<le> 0 \<Longrightarrow> pow2 q = 1 / 2 ^ nat (- q)"
proof (cases "q = 0")
  case True
  then show ?thesis by (simp add: pow2_def)
next
  case False
  assume "q \<le> 0"
  with False have "q < 0" by simp
  then have "pow2 q = inverse 2 ^ nat (- q)"
    by (simp add: pow2_def power_int_def)
  also have "\<dots> = 1 / 2 ^ nat (- q)"
    by (simp add: inverse_eq_divide power_one_over)
  finally show ?thesis .
qed

lemma rd_of_int:
  assumes "\<bar>n\<bar> < 2 ^ 53"
  shows "rd (of_int n) = Fin (of_int n)"
proof -
  define e where "e = expo (of_int n)"
  have "\<bar>real_of_int n\<bar> < 2 ^ 53"
    using assms by (metis of_int_abs of_int_less_numeral_power_cancel_iff)
  then have "\<bar>real_of_int n\<bar> < pow2 (52 + 1)" by (simp add: pow2_def)
  then have e52: "e \<le> 52" unfolding e_def by (rule expo_upper) simp
  define m where "m = nat (- (e - 52))"
  have pq: "pow2 (e - 52) = 1 / 2 ^ m"
    unfolding m_def using e52 by (intro pow2_nonpos) simp
  have "real_of_int n / pow2 (e - 52) = of_int (n * 2 ^ m)"
    by (simp add: pq)
  then have "round_even (real_of_int n / pow2 (e - 52)) = n * 2 ^ m"
    by (simp only: round_even_of_int)
  then have r: "of_int (round_even (real_of_int n / pow2 (e - 52))) * pow2 (e - 52) = of_int n"
    by (simp add: pq)
  have big: "(2::real) ^ 53 < pow2 1024" by (simp add: pow2_def)
  have "\<bar>real_of_int n\<bar> < pow2 1024"
    using \<open>\<bar>real_of_int n\<bar> < 2 ^ 53\<close> big by linarith
  then have n1: "\<not> pow2 1024 \<le> of_int n" and n2: "\<not> real_of_int n \<le> - pow2 1024"
    by linarith+
  show ?thesis
    using n1 n2 by (simp add: rd_at [OF e_def [symmetric]] Let_def r)
qed


lemma round_even_neg: "round_even (- y) = - round_even y"
proof (cases "y = of_int \<lfloor>y\<rfloor>")
  case True
  then obtain k where "y = of_int k" ..
  then have "- y = of_int (- k)" by simp
  then show ?thesis using \<open>y = of_int k\<close> by (simp only: round_even_of_int)
next
  case False
  have c: "\<lceil>y\<rceil> = \<lfloor>y\<rfloor> + 1" using False by (simp add: ceiling_altdef)
  have f: "\<lfloor>- y\<rfloor> = - \<lfloor>y\<rfloor> - 1" using c by (simp add: ceiling_def)
  show ?thesis
    unfolding round_even_def Let_def f by (auto simp: algebra_simps)
qed

lemma expo_neg: "expo (- x) = expo x"
  by (simp add: expo_def)

lemma rd_neg: "rd (- x) = jneg (rd x)"
proof -
  have "0 < pow2 1024" by (rule pow2_pos)
  then show ?thesis
    by (auto simp: rd_def Let_def expo_neg round_even_neg)
qed

lemma rd_not_NaN: "rd x \<noteq> NaN"
  by (simp add: rd_def Let_def)

lemma rd_abs: "rd \<bar>x\<bar> = jabs (rd x)"
proof (cases "0 \<le> x")
  case True
  then have "of_int 0 \<le> x / pow2 (expo x - 52)" using pow2_pos [of "expo x - 52"] by simp
  then have "0 \<le> round_even (x / pow2 (expo x - 52))" by (rule round_even_ge)
  then have "0 \<le> of_int (round_even (x / pow2 (expo x - 52))) * pow2 (expo x - 52)"
    using pow2_pos [of "expo x - 52"] by simp
  then show ?thesis using True pow2_pos [of 1024] by (auto simp: rd_def Let_def)
next
  case False
  then have "x / pow2 (expo x - 52) \<le> of_int 0" using pow2_pos [of "expo x - 52"]
    by (simp add: divide_le_0_iff)
  then have "round_even (x / pow2 (expo x - 52)) \<le> 0" by (rule round_even_le)
  then have "of_int (round_even (x / pow2 (expo x - 52))) * pow2 (expo x - 52) \<le> 0"
    using pow2_pos [of "expo x - 52"] by (simp add: mult_le_0_iff)
  then have "jabs (rd x) = jneg (rd x)"
    using pow2_pos [of 1024] by (auto simp: rd_def Let_def)
  then show ?thesis using False rd_neg [of x] by simp
qed

lemma rd_1: "rd 1 = Fin 1"
  using rd_of_int [of 1] by simp

lemma rd_2: "rd 2 = Fin 2"
  using rd_of_int [of 2] by simp

lemma rd_5: "rd 5 = Fin 5"
  using rd_of_int [of 5] by simp

lemma round_even_below_half: "y < of_int K - 1 / 2 \<Longrightarrow> round_even y \<le> K - 1"
proof -
  assume h: "y < of_int K - 1 / 2"
  have f: "\<lfloor>y\<rfloor> \<le> K - 1" using h by (simp add: floor_le_iff) linarith
  show ?thesis
  proof (cases "\<lfloor>y\<rfloor> = K - 1")
    case True
    then have "y - of_int \<lfloor>y\<rfloor> < 1 / 2" using h by simp
    then show ?thesis using True by (simp add: round_even_def Let_def)
  next
    case False
    then have "\<lfloor>y\<rfloor> + 1 \<le> K - 1" using f by simp
    then show ?thesis by (simp add: round_even_def Let_def)
  qed
qed

lemma round_even_near: "\<bar>of_int (round_even y) - y\<bar> \<le> 1 / 2"
proof -
  have "0 \<le> y - of_int \<lfloor>y\<rfloor>" "y - of_int \<lfloor>y\<rfloor> < 1" by linarith+
  then show ?thesis by (auto simp: round_even_def Let_def)
qed

lemma pow2_add: "pow2 (a + b) = pow2 a * pow2 b"
  by (simp add: pow2_def power_int_add)

text \<open>
  The rounding error: a value of magnitude at most \<open>B\<close> (with \<open>B\<close> in the normal range
  and far from overflow) is rounded to a finite number at most \<open>B * 2^-53\<close> away.
\<close>

lemma rd_error:
  assumes "\<bar>x\<bar> \<le> B" "pow2 (- 1022) \<le> B" "B \<le> 2 ^ 1000"
  shows "\<exists>r. rd x = Fin r \<and> \<bar>r - x\<bar> \<le> B / 2 ^ 53"
proof -
  define e where "e = expo x"
  define q where "q = e - 52"
  define r where "r = of_int (round_even (x / pow2 q)) * pow2 q"
  have eB: "pow2 e \<le> B"
    using expo_lower [of x] assms(1,2) by (auto simp: e_def)
  have "pow2 e = pow2 (q + 52)" by (simp add: q_def)
  also have "\<dots> = pow2 q * 2 ^ 52" by (simp add: pow2_add) (simp add: pow2_def)
  finally have pe: "pow2 e = pow2 q * 2 ^ 52" .
  have q0: "0 < pow2 q" by (rule pow2_pos)
  have "r - x = (of_int (round_even (x / pow2 q)) - x / pow2 q) * pow2 q"
    using q0 by (simp add: r_def algebra_simps)
  then have "\<bar>r - x\<bar> = \<bar>of_int (round_even (x / pow2 q)) - x / pow2 q\<bar> * pow2 q"
    using q0 by (simp add: abs_mult)
  also have "\<dots> \<le> 1 / 2 * pow2 q"
    using round_even_near [of "x / pow2 q"] q0 by (intro mult_right_mono) simp_all
  also have "\<dots> = pow2 e / 2 ^ 53" by (simp add: pe)
  also have "\<dots> \<le> B / 2 ^ 53" using eB by (simp add: divide_right_mono)
  finally have err: "\<bar>r - x\<bar> \<le> B / 2 ^ 53" .
  have "B / 2 ^ 53 \<le> B" using assms(2) pow2_pos [of "- 1022"]
    by (simp add: field_simps)
  then have "\<bar>r\<bar> \<le> 2 * B" using err assms(1) by linarith
  also have "\<dots> \<le> 2 * 2 ^ 1000" using assms(3) by simp
  also have "\<dots> < pow2 1024" by (simp add: pow2_def)
  finally have "\<bar>r\<bar> < pow2 1024" .
  then have n1: "\<not> pow2 1024 \<le> r" and n2: "\<not> r \<le> - pow2 1024" by linarith+
  have "rd x = (if pow2 1024 \<le> r then PInf else if r \<le> - pow2 1024 then NInf else Fin r)"
    unfolding r_def q_def e_def rd_def Let_def by (rule refl)
  then have "rd x = Fin r" using n1 n2 by (simp only: if_False)
  then show ?thesis using err by blast
qed

lemma round_even_upper_half:
  assumes "of_int K - 1 / 2 \<le> y" "y \<le> of_int K" "even K"
  shows "round_even y = K"
proof (cases "y = of_int K")
  case True
  then show ?thesis by (simp add: round_even_of_int)
next
  case False
  then have lt: "y < of_int K" using assms(2) by simp
  have "of_int (K - 1) \<le> y" using assms(1) by simp
  then have "K - 1 \<le> \<lfloor>y\<rfloor>" by (simp only: le_floor_iff)
  moreover have "\<lfloor>y\<rfloor> < K" using lt by (simp add: floor_less_iff)
  ultimately have f: "\<lfloor>y\<rfloor> = K - 1" by simp
  have "odd (K - 1)" using assms(3) by simp
  then show ?thesis using assms(1) f by (auto simp: round_even_def Let_def)
qed
section \<open>The Orbiter: lemmas and claims\<close>

lemma fmod_range: "b \<noteq> 0 \<Longrightarrow> \<bar>fmod a b\<bar> < \<bar>b\<bar>"
proof -
  assume b: "b \<noteq> 0"
  define q where "q = \<bar>a\<bar> / \<bar>b\<bar>"
  have q: "\<bar>a\<bar> = q * \<bar>b\<bar>" using b by (simp add: q_def)
  have "0 \<le> q - of_int \<lfloor>q\<rfloor>" "q - of_int \<lfloor>q\<rfloor> < 1" by linarith+
  then have "0 \<le> (q - of_int \<lfloor>q\<rfloor>) * \<bar>b\<bar>" "(q - of_int \<lfloor>q\<rfloor>) * \<bar>b\<bar> < 1 * \<bar>b\<bar>"
    using b by (simp_all add: mult_strict_right_mono)
  then have r: "0 \<le> \<bar>a\<bar> - \<bar>b\<bar> * of_int \<lfloor>q\<rfloor>" "\<bar>a\<bar> - \<bar>b\<bar> * of_int \<lfloor>q\<rfloor> < \<bar>b\<bar>"
    using q by (simp_all add: algebra_simps)
  have "\<bar>fmod a b\<bar> = \<bar>sgn a\<bar> * \<bar>\<bar>a\<bar> - \<bar>b\<bar> * of_int \<lfloor>q\<rfloor>\<bar>"
    by (simp add: fmod_def q_def abs_mult)
  also have "\<dots> \<le> \<bar>\<bar>a\<bar> - \<bar>b\<bar> * of_int \<lfloor>q\<rfloor>\<bar>"
    by (cases "a = 0") (simp_all add: abs_sgn_eq)
  finally show ?thesis using r by simp
qed

lemma rd_below_360:
  assumes "0 \<le> y" "y \<le> 360"
  shows "\<exists>z. rd y = Fin z \<and> 0 \<le> z \<and> z \<le> 360"
proof -
  define e where "e = expo y"
  have e8: "e \<le> 8" unfolding e_def
    using assms by (intro expo_upper) (simp_all add: pow2_def)
  define q where "q = e - 52"
  define n where "n = nat (- q)"
  have "q < 0" using e8 by (simp add: q_def)
  then have "pow2 q = inverse 2 ^ n"
    by (simp add: pow2_def power_int_def n_def)
  also have "\<dots> = 1 / 2 ^ n"
    by (simp add: inverse_eq_divide power_one_over)
  finally have pq: "pow2 q = 1 / 2 ^ n" .
  have n44: "44 \<le> n" using e8 by (simp add: n_def q_def)
  define K :: int where "K = 360 * 2 ^ n"
  have "y / pow2 q \<le> of_int K"
    using assms by (simp add: pq K_def)
  then have up: "round_even (y / pow2 q) \<le> K" by (rule round_even_le)
  have "of_int 0 \<le> y / pow2 q" using assms by (simp add: pq)
  then have lo: "0 \<le> round_even (y / pow2 q)" by (rule round_even_ge)
  define r where "r = of_int (round_even (y / pow2 q)) * pow2 q"
  have r0: "0 \<le> r" using lo by (simp add: r_def pq)
  have "r \<le> of_int K * pow2 q"
    unfolding r_def using up pow2_pos [of q] by (simp add: mult_right_mono)
  also have "\<dots> = 360" by (simp add: K_def pq)
  finally have r360: "r \<le> 360" .
  have big: "(360::real) < pow2 1024" by (simp add: pow2_def)
  have n1: "\<not> pow2 1024 \<le> r" using r360 big by linarith
  have n2: "\<not> r \<le> - pow2 1024" using r0 pow2_pos [of 1024] by linarith
  have "rd y = (if pow2 1024 \<le> r then PInf else if r \<le> - pow2 1024 then NInf else Fin r)"
    unfolding r_def q_def e_def rd_def Let_def by (rule refl)
  then have "rd y = Fin r" using n1 n2 by (simp only: if_False)
  then show ?thesis using r0 r360 by blast
qed

lemma rd_below_360_strict:
  assumes "0 \<le> y" "y < 360 - 1 / 2 ^ 45"
  shows "\<exists>z. rd y = Fin z \<and> 0 \<le> z \<and> z < 360"
proof -
  define e where "e = expo y"
  have e8: "e \<le> 8" unfolding e_def
    using assms by (intro expo_upper) (simp_all add: pow2_def)
  define q where "q = e - 52"
  define n where "n = nat (- q)"
  have "q \<le> 0" using e8 by (simp add: q_def)
  then have pq: "pow2 q = 1 / 2 ^ n"
    unfolding n_def by (rule pow2_nonpos)
  have n44: "44 \<le> n" using e8 by (simp add: n_def q_def)
  define K :: int where "K = 360 * 2 ^ n"
  have "(2::real) ^ 44 \<le> 2 ^ n" using n44 by (intro power_increasing) simp_all
  then have half: "1 / 2 \<le> (2::real) ^ n / 2 ^ 45" by simp
  have "y * 2 ^ n < (360 - 1 / 2 ^ 45) * 2 ^ n"
    using assms(2) by (simp add: mult_strict_right_mono)
  also have "\<dots> = of_int K - 2 ^ n / 2 ^ 45" by (simp add: K_def algebra_simps)
  also have "\<dots> \<le> of_int K - 1 / 2" using half by linarith
  finally have "y / pow2 q < of_int K - 1 / 2" by (simp add: pq)
  then have up: "round_even (y / pow2 q) \<le> K - 1" by (rule round_even_below_half)
  have "of_int 0 \<le> y / pow2 q" using assms by (simp add: pq)
  then have lo: "0 \<le> round_even (y / pow2 q)" by (rule round_even_ge)
  define r where "r = of_int (round_even (y / pow2 q)) * pow2 q"
  have r0: "0 \<le> r" using lo by (simp add: r_def pq)
  have "r \<le> of_int (K - 1) * pow2 q"
    unfolding r_def using up pow2_pos [of q] by (intro mult_right_mono) simp_all
  also have "\<dots> = 360 - 1 / 2 ^ n" by (simp add: K_def pq algebra_simps)
  also have "\<dots> < 360" by simp
  finally have r360: "r < 360" .
  have big: "(360::real) < pow2 1024" by (simp add: pow2_def)
  have n1: "\<not> pow2 1024 \<le> r" using r360 big by linarith
  have n2: "\<not> r \<le> - pow2 1024" using r0 pow2_pos [of 1024] by linarith
  have "rd y = (if pow2 1024 \<le> r then PInf else if r \<le> - pow2 1024 then NInf else Fin r)"
    unfolding r_def q_def e_def rd_def Let_def by (rule refl)
  then have "rd y = Fin r" using n1 n2 by (simp only: if_False)
  then show ?thesis using r0 r360 by blast
qed

lemma clampDegrees_range:
  assumes "0 \<le> fmod x 360 \<or> fmod x 360 < - (1 / 2 ^ 45)"
  shows "\<exists>z. clampDegrees (Fin x) = Fin z \<and> 0 \<le> z \<and> z < 360"
proof (cases "fmod x 360 < 0")
  case True
  have "\<bar>fmod x 360\<bar> < \<bar>360\<bar>" by (rule fmod_range) simp
  then have "0 \<le> fmod x 360 + 360" "fmod x 360 + 360 < 360 - 1 / 2 ^ 45"
    using True assms by simp_all
  from rd_below_360_strict [OF this] show ?thesis
    using True by (auto simp: clampDegrees_def Let_def)
next
  case False
  have "\<bar>fmod x 360\<bar> < \<bar>360\<bar>" by (rule fmod_range) simp
  then show ?thesis using False by (simp add: clampDegrees_def Let_def)
qed

text \<open>
  The remainders left out by \<open>clampDegrees_range\<close> are those for which the sum
  \<open>remainder + 360\<close> rounds to 360.
\<close>

lemma rd_just_below_360:
  assumes "360 - 1 / 2 ^ 45 \<le> y" "y \<le> 360"
  shows "rd y = Fin 360"
proof (rule rd_eval [where e = 8])
  show "pow2 8 \<le> \<bar>y\<bar>" using assms by (simp add: pow2_def)
  show "\<bar>y\<bar> < pow2 (8 + 1)" using assms by (simp add: pow2_def)
  have pq: "pow2 (- 44) = 1 / 2 ^ 44" using pow2_nonpos [of "- 44"] by simp
  have "of_int (360 * 2 ^ 44) - 1 / 2 \<le> y * 2 ^ 44" using assms(1) by simp
  moreover have "y * 2 ^ 44 \<le> of_int (360 * 2 ^ 44)" using assms(2) by simp
  ultimately have "round_even (y * 2 ^ 44) = 360 * 2 ^ 44"
    by (rule round_even_upper_half) simp
  then show "of_int (round_even (y / pow2 (8 - 52))) * pow2 (8 - 52) = 360"
    by (simp add: pq)
  show "\<bar>360::real\<bar> < pow2 1024" by (simp add: pow2_def)
qed simp_all

lemma clampDegrees_slip:
  assumes "- (1 / 2 ^ 45) \<le> fmod x 360" "fmod x 360 < 0"
  shows "clampDegrees (Fin x) = Fin 360"
proof -
  have "rd (fmod x 360 + 360) = Fin 360"
    using assms by (intro rd_just_below_360) simp_all
  then show ?thesis using assms(2) by (simp add: clampDegrees_def Let_def)
qed

lemma clampDegrees_not_finite: "\<not> isFinite x \<Longrightarrow> clampDegrees x = NaN"
  by (cases x) (simp_all add: clampDegrees_def)

lemma updatePosition_currentAngle:
  "currentAngle (updatePosition t orb)
     = clampDegrees (jadd (currentAngle orb) (jmul (angVelDegPerSecond orb) t))"
  by (simp add: updatePosition_def Let_def)

lemma updatePosition_angVel:
  "angVelDegPerSecond (updatePosition t orb) = angVelDegPerSecond orb"
  by (simp add: updatePosition_def Let_def)

lemma clampR_eq: "clampR y = y - 360 * of_int \<lfloor>y / 360\<rfloor>"
proof (cases "0 \<le> y")
  case True
  have "0 \<le> y / 360 - of_int \<lfloor>y / 360\<rfloor>" by linarith
  then have "0 \<le> y - 360 * of_int \<lfloor>y / 360\<rfloor>" by simp
  then show ?thesis
    using True by (cases "y = 0") (simp_all add: clampR_def fmod_def Let_def)
next
  case False
  define u where "u = - y / 360"
  have y: "y = - 360 * u" by (simp add: u_def)
  have fm: "fmod y 360 = 360 * (of_int \<lfloor>u\<rfloor> - u)"
    using False by (simp add: fmod_def u_def algebra_simps)
  have fl: "\<lfloor>y / 360\<rfloor> = - \<lceil>u\<rceil>"
    by (simp add: y ceiling_def)
  show ?thesis
  proof (cases "u = of_int \<lfloor>u\<rfloor>")
    case True
    then have "\<lceil>u\<rceil> = \<lfloor>u\<rfloor>" by (metis ceiling_of_int)
    then show ?thesis
      using True fm fl by (simp add: clampR_def Let_def y)
  next
    case False
    then have c: "\<lceil>u\<rceil> = \<lfloor>u\<rfloor> + 1" by (simp add: ceiling_altdef)
    have "of_int \<lfloor>u\<rfloor> < u" using False by (metis of_int_floor_le order_less_le)
    then have "fmod y 360 < 0" by (simp add: fm)
    then show ?thesis
      using fm fl c by (simp add: clampR_def Let_def y algebra_simps)
  qed
qed

lemma clampR_range: "0 \<le> clampR s \<and> clampR s < 360"
proof -
  have "\<bar>fmod s 360\<bar> < \<bar>360\<bar>" by (rule fmod_range) simp
  then show ?thesis by (auto simp: clampR_def Let_def)
qed

lemma clampDegrees_clampR:
  "clampDegrees (Fin s) = (if fmod s 360 < 0 then rd (clampR s) else Fin (clampR s))"
  by (simp add: clampDegrees_def clampR_def Let_def)

text \<open>
  \<open>clampDegrees\<close> returns the angle modulo 360 up to the rounding of the one addition
  it makes.
\<close>

lemma clampDegrees_error:
  "\<exists>z k. clampDegrees (Fin s) = Fin z \<and> 0 \<le> z \<and> z \<le> 360
         \<and> \<bar>z - s - 360 * of_int k\<bar> \<le> 360 / 2 ^ 53"
proof -
  define k where "k = - \<lfloor>s / 360\<rfloor>"
  have c: "clampR s = s + 360 * of_int k" by (simp add: clampR_eq k_def)
  have rng: "0 \<le> clampR s" "clampR s \<le> 360" using clampR_range [of s] by simp_all
  show ?thesis
  proof (cases "fmod s 360 < 0")
    case True
    from rd_below_360 [OF rng] obtain z where z: "rd (clampR s) = Fin z" "0 \<le> z" "z \<le> 360"
      by blast
    have "\<bar>clampR s\<bar> \<le> 360" using rng by simp
    moreover have "pow2 (- 1022) \<le> 360"
      using pow2_mono [of "- 1022" 0] by (simp add: pow2_def)
    moreover have "(360::real) \<le> 2 ^ 1000" by simp
    ultimately obtain r where r: "rd (clampR s) = Fin r" "\<bar>r - clampR s\<bar> \<le> 360 / 2 ^ 53"
      using rd_error by blast
    have "r = z" using z(1) r(1) by simp
    then have "\<bar>z - s - 360 * of_int k\<bar> \<le> 360 / 2 ^ 53" using r(2) c by (simp add: algebra_simps)
    moreover have "clampDegrees (Fin s) = Fin z" using True z(1) by (simp add: clampDegrees_clampR)
    ultimately show ?thesis using z(2,3) by blast
  next
    case False
    then have "clampDegrees (Fin s) = Fin (clampR s)" by (simp add: clampDegrees_clampR)
    moreover have "\<bar>clampR s - s - 360 * of_int k\<bar> \<le> 360 / 2 ^ 53" by (simp add: c)
    ultimately show ?thesis using rng by blast
  qed
qed

text \<open>
  One update: the new angle is the exact angle \<open>a + v * t\<close> modulo 360, up to the
  rounding of the product, of the sum and of \<open>clampDegrees\<close>.
\<close>

lemma updatePosition_error:
  assumes a: "currentAngle orb = Fin a" and v: "angVelDegPerSecond orb = Fin v"
    and aM: "\<bar>a\<bar> \<le> M" and vt: "\<bar>v * t\<bar> \<le> P" and P1: "1 \<le> P" and M0: "0 \<le> M"
    and big: "M + 2 * P \<le> 2 ^ 1000"
  shows "\<exists>z k. currentAngle (updatePosition (Fin t) orb) = Fin z \<and> 0 \<le> z \<and> z \<le> 360
           \<and> \<bar>z - (a + v * t) - 360 * of_int k\<bar> \<le> (M + 3 * P + 360) / 2 ^ 53"
proof -
  have small: "pow2 (- 1022) \<le> 1"
    using pow2_mono [of "- 1022" 0] by (simp add: pow2_def)
  have "pow2 (- 1022) \<le> P" "P \<le> 2 ^ 1000" using small P1 M0 big by linarith+
  with vt obtain p where p: "rd (v * t) = Fin p" "\<bar>p - v * t\<bar> \<le> P / 2 ^ 53"
    using rd_error by blast
  have "P / 2 ^ 53 \<le> P" using P1 by (simp add: field_simps)
  then have pP: "\<bar>p\<bar> \<le> 2 * P" using p(2) vt by linarith
  have "\<bar>a + p\<bar> \<le> M + 2 * P" using aM pP by linarith
  moreover have "pow2 (- 1022) \<le> M + 2 * P" using small P1 M0 by linarith
  ultimately obtain s where s: "rd (a + p) = Fin s" "\<bar>s - (a + p)\<bar> \<le> (M + 2 * P) / 2 ^ 53"
    using big rd_error by blast
  from clampDegrees_error [of s] obtain z k where
    z: "clampDegrees (Fin s) = Fin z" "0 \<le> z" "z \<le> 360" "\<bar>z - s - 360 * of_int k\<bar> \<le> 360 / 2 ^ 53"
    by blast
  have "currentAngle (updatePosition (Fin t) orb) = Fin z"
    using a v p(1) s(1) z(1) by (simp add: updatePosition_currentAngle)
  moreover have "\<bar>z - (a + v * t) - 360 * of_int k\<bar> \<le> (M + 3 * P + 360) / 2 ^ 53"
  proof -
    have "\<bar>z - (a + v * t) - 360 * of_int k\<bar>
            \<le> \<bar>z - s - 360 * of_int k\<bar> + \<bar>s - (a + p)\<bar> + \<bar>p - v * t\<bar>" by linarith
    also have "\<dots> \<le> 360 / 2 ^ 53 + (M + 2 * P) / 2 ^ 53 + P / 2 ^ 53"
      using z(4) s(2) p(2) by linarith
    also have "\<dots> = (M + 3 * P + 360) / 2 ^ 53" by (simp add: field_simps)
    finally show ?thesis .
  qed
  ultimately show ?thesis using z(2,3) by blast
qed

lemmas rd_ints =
  rd_of_int [of 100, simplified] rd_of_int [of 200, simplified] rd_of_int [of 300, simplified]
  rd_of_int [of "- 200", simplified] rd_of_int [of "- 190", simplified] rd_of_int [of 170, simplified]
  rd_of_int [of "- 400", simplified] rd_of_int [of "- 230", simplified] rd_of_int [of 130, simplified]
  rd_of_int [of "- 600", simplified] rd_of_int [of "- 590", simplified]

subsection \<open>Claims about the Orbiter\<close>

text \<open>
  C1, as stated, fails. An orbiter constructed with the initial angle \<open>-2^-60\<close> and
  updated with an elapsed time of 0 (what the scene builder does right after the
  construction) ends with \<open>currentAngle = 360\<close>: the remainder \<open>-2^-60\<close> is negative,
  and \<open>-2^-60 + 360\<close> rounds to 360. And an infinite elapsed time leaves NaN.
\<close>

theorem angle_range_counterexample:
  "currentAngle (updatePosition (Fin 0) (example_orbiter (- (1 / 2 ^ 60)) 0)) = Fin 360
   \<and> clampDegrees (Fin (- (1 / 2 ^ 60))) = Fin 360
   \<and> currentAngle (updatePosition PInf (example_orbiter 10 1)) = NaN"
proof -
  have a: "rd (- (1 / 2 ^ 60)) = Fin (- (1 / 2 ^ 60))"
    by (rule rd_eval [where e = "- 60"]) (simp_all add: pow2_def round_even_def Let_def)
  have b: "rd (360 - 1 / 2 ^ 60) = Fin 360"
    by (rule rd_eval [where e = 8]) (simp_all add: pow2_def round_even_def Let_def)
  have "jadd (Fin (- (1 / 2 ^ 60))) (jmul (Fin 0) (Fin 0)) = Fin (- (1 / 2 ^ 60))"
    using a by (simp add: rd_0)
  moreover have c: "clampDegrees (Fin (- (1 / 2 ^ 60))) = Fin 360"
    using b by (simp add: clampDegrees_def fmod_def)
  ultimately have "currentAngle (updatePosition (Fin 0) (example_orbiter (- (1 / 2 ^ 60)) 0)) = Fin 360"
    by (simp add: updatePosition_currentAngle example_orbiter_def new_Orbiter_def)
  moreover have "currentAngle (updatePosition PInf (example_orbiter 10 1)) = NaN"
    by (simp add: updatePosition_currentAngle example_orbiter_def new_Orbiter_def clampDegrees_def)
  ultimately show ?thesis using c by simp
qed

text \<open>
  C1, amended. When the accumulated angle \<open>currentAngle + angVelDegPerSecond * elapsedSeconds\<close>
  is a finite number whose remainder \<open>angle % 360\<close> does not lie in \<open>[-2^-45, 0)\<close>,
  \<open>updatePosition\<close> leaves a finite \<open>currentAngle\<close> in the half-open interval
  \<open>[0, 360)\<close>; when the accumulated angle is NaN or infinite, \<open>currentAngle\<close> becomes
  NaN. Likewise \<open>clampDegrees\<close> maps a finite angle with such a remainder into
  \<open>[0, 360)\<close>, and NaN and the infinities to NaN.
\<close>

theorem updatePosition_angle_range:
  "(\<forall>x. jadd (currentAngle orb) (jmul (angVelDegPerSecond orb) t) = Fin x
         \<and> (0 \<le> fmod x 360 \<or> fmod x 360 < - (1 / 2 ^ 45)) \<longrightarrow>
      (\<exists>z. currentAngle (updatePosition t orb) = Fin z \<and> 0 \<le> z \<and> z < 360))
   \<and> (\<not> isFinite (jadd (currentAngle orb) (jmul (angVelDegPerSecond orb) t)) \<longrightarrow>
        currentAngle (updatePosition t orb) = NaN)
   \<and> (0 \<le> fmod y 360 \<or> fmod y 360 < - (1 / 2 ^ 45) \<longrightarrow>
        (\<exists>z. clampDegrees (Fin y) = Fin z \<and> 0 \<le> z \<and> z < 360))
   \<and> clampDegrees NaN = NaN \<and> clampDegrees PInf = NaN \<and> clampDegrees NInf = NaN"
proof -
  have "\<forall>x. jadd (currentAngle orb) (jmul (angVelDegPerSecond orb) t) = Fin x
         \<and> (0 \<le> fmod x 360 \<or> fmod x 360 < - (1 / 2 ^ 45)) \<longrightarrow>
      (\<exists>z. currentAngle (updatePosition t orb) = Fin z \<and> 0 \<le> z \<and> z < 360)"
    using clampDegrees_range by (simp add: updatePosition_currentAngle)
  moreover have "\<not> isFinite (jadd (currentAngle orb) (jmul (angVelDegPerSecond orb) t)) \<longrightarrow>
        currentAngle (updatePosition t orb) = NaN"
    using clampDegrees_not_finite by (simp add: updatePosition_currentAngle)
  moreover have "clampDegrees NaN = NaN \<and> clampDegrees PInf = NaN \<and> clampDegrees NInf = NaN"
    by (simp add: clampDegrees_not_finite)
  ultimately show ?thesis
    using clampDegrees_range [of y] by blast
qed

theorem updatePosition_angle_range_witness:
  "jadd (currentAngle (example_orbiter 10 (- 2))) (jmul (angVelDegPerSecond (example_orbiter 10 (- 2))) (Fin 100))
     = Fin (- 190)
   \<and> fmod (- 190) 360 = - 190
   \<and> currentAngle (updatePosition (Fin 100) (example_orbiter 10 (- 2))) = Fin 170
   \<and> \<not> isFinite (jadd (currentAngle (example_orbiter 10 (- 2)))
                      (jmul (angVelDegPerSecond (example_orbiter 10 (- 2))) PInf))
   \<and> currentAngle (updatePosition PInf (example_orbiter 10 (- 2))) = NaN
   \<and> fmod 725 360 = 5
   \<and> clampDegrees (Fin 725) = Fin 5"
proof -
  let ?o = "example_orbiter 10 (- 2)"
  have o: "currentAngle ?o = Fin 10" "angVelDegPerSecond ?o = Fin (- 2)"
    by (simp_all add: example_orbiter_def new_Orbiter_def)
  have s: "jadd (currentAngle ?o) (jmul (angVelDegPerSecond ?o) (Fin 100)) = Fin (- 190)"
    using o by (simp add: rd_ints)
  have f: "fmod (- 190) 360 = - 190" "fmod 725 360 = 5"
    by (simp_all add: fmod_def)
  have i: "\<not> isFinite (jadd (currentAngle ?o) (jmul (angVelDegPerSecond ?o) PInf))"
    using o by simp
  have c: "currentAngle (updatePosition (Fin 100) ?o) = Fin 170"
    using o by (simp add: updatePosition_currentAngle clampDegrees_def fmod_def rd_ints)
  have d: "clampDegrees (Fin 725) = Fin 5"
    by (simp add: clampDegrees_def fmod_def)
  show ?thesis
    using updatePosition_angle_range [of ?o "Fin 100" 725] updatePosition_angle_range [of ?o PInf 725]
      s f i c d
    by simp
qed

text \<open>
  C8, as stated, fails. From the angle 1 with velocity 1, two updates by \<open>2^-53\<close> seconds
  leave the angle 1 (each sum \<open>1 + 2^-53\<close> rounds back to 1), while one update by
  \<open>2^-53 + 2^-53 = 2^-52\<close> seconds leaves \<open>1 + 2^-52\<close>.
\<close>

theorem accumulation_counterexample:
  "currentAngle (updatePosition (Fin (1 / 2 ^ 53)) (updatePosition (Fin (1 / 2 ^ 53)) (example_orbiter 1 1)))
     = Fin 1
   \<and> jadd (Fin (1 / 2 ^ 53)) (Fin (1 / 2 ^ 53)) = Fin (1 / 2 ^ 52)
   \<and> currentAngle (updatePosition (Fin (1 / 2 ^ 52)) (example_orbiter 1 1)) = Fin (1 + 1 / 2 ^ 52)"
proof -
  have a: "rd (1 / 2 ^ 53) = Fin (1 / 2 ^ 53)"
    by (rule rd_eval [where e = "- 53"]) (simp_all add: pow2_def round_even_def Let_def)
  have b: "rd (1 + 1 / 2 ^ 53) = Fin 1"
    by (rule rd_eval [where e = 0]) (simp_all add: pow2_def round_even_def Let_def)
  have c: "rd (1 / 2 ^ 52) = Fin (1 / 2 ^ 52)"
    by (rule rd_eval [where e = "- 52"]) (simp_all add: pow2_def round_even_def Let_def)
  have d: "rd (1 + 1 / 2 ^ 52) = Fin (1 + 1 / 2 ^ 52)"
    by (rule rd_eval [where e = 0]) (simp_all add: pow2_def round_even_def Let_def)
  have step: "currentAngle (updatePosition (Fin (1 / 2 ^ 53)) orb) = Fin 1"
    if "currentAngle orb = Fin 1" "angVelDegPerSecond orb = Fin 1" for orb
    using that a b by (simp add: updatePosition_currentAngle clampDegrees_def fmod_def)
  have o: "currentAngle (example_orbiter 1 1) = Fin 1" "angVelDegPerSecond (example_orbiter 1 1) = Fin 1"
    by (simp_all add: example_orbiter_def new_Orbiter_def)
  have one: "currentAngle (updatePosition (Fin (1 / 2 ^ 53)) (example_orbiter 1 1)) = Fin 1"
    using o by (rule step)
  have two: "currentAngle (updatePosition (Fin (1 / 2 ^ 53)) (updatePosition (Fin (1 / 2 ^ 53)) (example_orbiter 1 1))) = Fin 1"
    using one o by (intro step) (simp_all add: updatePosition_angVel)
  have three: "jadd (Fin (1 / 2 ^ 53)) (Fin (1 / 2 ^ 53)) = Fin (1 / 2 ^ 52)"
    using c by simp
  have four: "currentAngle (updatePosition (Fin (1 / 2 ^ 52)) (example_orbiter 1 1)) = Fin (1 + 1 / 2 ^ 52)"
    using c d o by (simp add: updatePosition_currentAngle clampDegrees_def fmod_def)
  from two three four show ?thesis by blast
qed

text \<open>
  C8, amended. Let the angle \<open>a\<close>, the velocity \<open>v\<close> and the elapsed times \<open>t1\<close>, \<open>t2\<close>
  be finite, and let \<open>M \<ge> 360\<close> (at most \<open>2^990\<close>) bound the magnitudes of \<open>a\<close>, \<open>v\<close>,
  \<open>v * t1\<close> and \<open>v * t2\<close>, with \<open>t1 + t2\<close> of magnitude at most \<open>2^1000\<close>. Then
  \<open>updatePosition(t1)\<close> followed by \<open>updatePosition(t2)\<close> and the single
  \<open>updatePosition(t1 + t2)\<close> both leave a finite \<open>currentAngle\<close>; modulo 360 the first is
  within \<open>10 * M * 2^-53\<close> and the second within \<open>13 * M * 2^-53\<close> of the exact angle
  \<open>a + v * (t1 + t2)\<close>, and so the two differ, modulo 360, by at most \<open>23 * M * 2^-53\<close>
  (less than \<open>10^-12\<close> degrees for \<open>M = 360\<close>).
\<close>

theorem accumulation_error_bound:
  assumes a: "currentAngle orb = Fin a" and v: "angVelDegPerSecond orb = Fin v"
    and M: "360 \<le> M" "M \<le> 2 ^ 990"
    and aM: "\<bar>a\<bar> \<le> M" and vM: "\<bar>v\<bar> \<le> M"
    and vt1: "\<bar>v * t1\<bar> \<le> M" and vt2: "\<bar>v * t2\<bar> \<le> M"
    and tt: "\<bar>t1 + t2\<bar> \<le> 2 ^ 1000"
  shows "\<exists>z2 z k2 k.
           currentAngle (updatePosition (Fin t2) (updatePosition (Fin t1) orb)) = Fin z2
         \<and> currentAngle (updatePosition (jadd (Fin t1) (Fin t2)) orb) = Fin z
         \<and> \<bar>z2 - (a + v * (t1 + t2)) - 360 * of_int k2\<bar> \<le> 10 * M / 2 ^ 53
         \<and> \<bar>z - (a + v * (t1 + t2)) - 360 * of_int k\<bar> \<le> 13 * M / 2 ^ 53
         \<and> \<bar>z2 - z - 360 * of_int (k2 - k)\<bar> \<le> 23 * M / 2 ^ 53"
proof -
  have small: "pow2 (- 1022) \<le> 1"
    using pow2_mono [of "- 1022" 0] by (simp add: pow2_def)
  have M0: "0 \<le> M" "1 \<le> M" using M(1) by linarith+
  have "(2::real) ^ 990 * 8 = 2 ^ 993" by simp
  moreover have "(2::real) ^ 993 \<le> 2 ^ 1000" by (intro power_increasing) simp_all
  ultimately have big: "8 * M \<le> 2 ^ 1000" using M(2) by linarith
  have big1: "M + 2 * M \<le> 2 ^ 1000" and big3: "M + 2 * (3 * M) \<le> 2 ^ 1000"
    using big M0 by linarith+
  from updatePosition_error [OF a v aM vt1 M0(2) M0(1) big1] obtain z1 k1 where
    z1: "currentAngle (updatePosition (Fin t1) orb) = Fin z1" "0 \<le> z1" "z1 \<le> 360"
      "\<bar>z1 - (a + v * t1) - 360 * of_int k1\<bar> \<le> (M + 3 * M + 360) / 2 ^ 53"
    by blast
  have v1: "angVelDegPerSecond (updatePosition (Fin t1) orb) = Fin v"
    using v by (simp add: updatePosition_angVel)
  have "\<bar>z1\<bar> \<le> M" using z1(2,3) M(1) by linarith
  from updatePosition_error [OF z1(1) v1 this vt2 M0(2) M0(1) big1] obtain z2 k2 where
    z2: "currentAngle (updatePosition (Fin t2) (updatePosition (Fin t1) orb)) = Fin z2"
      "\<bar>z2 - (z1 + v * t2) - 360 * of_int k2\<bar> \<le> (M + 3 * M + 360) / 2 ^ 53"
    by blast
  define B where "B = max \<bar>t1 + t2\<bar> (pow2 (- 1022))"
  have "\<bar>t1 + t2\<bar> \<le> B" "pow2 (- 1022) \<le> B" by (simp_all add: B_def)
  moreover have "B \<le> 2 ^ 1000" using tt small by (simp add: B_def)
  ultimately obtain T where T: "rd (t1 + t2) = Fin T" "\<bar>T - (t1 + t2)\<bar> \<le> B / 2 ^ 53"
    using rd_error by blast
  have "\<bar>v\<bar> * \<bar>t1 + t2\<bar> = \<bar>v * t1 + v * t2\<bar>" by (simp add: abs_mult [symmetric] algebra_simps)
  also have "\<dots> \<le> 2 * M" using vt1 vt2 by linarith
  finally have vs: "\<bar>v\<bar> * \<bar>t1 + t2\<bar> \<le> 2 * M" .
  have "\<bar>v\<bar> * pow2 (- 1022) \<le> \<bar>v\<bar> * 1" using small by (intro mult_left_mono) simp_all
  then have "\<bar>v\<bar> * pow2 (- 1022) \<le> 2 * M" using vM M0 by linarith
  with vs have vB: "\<bar>v\<bar> * B \<le> 2 * M" by (simp add: B_def max_def)
  have "\<bar>v * T - v * (t1 + t2)\<bar> = \<bar>v\<bar> * \<bar>T - (t1 + t2)\<bar>"
    by (simp add: abs_mult [symmetric] algebra_simps)
  also have "\<dots> \<le> \<bar>v\<bar> * (B / 2 ^ 53)" using T(2) by (intro mult_left_mono) simp_all
  also have "\<dots> = (\<bar>v\<bar> * B) / 2 ^ 53" by simp
  also have "\<dots> \<le> (2 * M) / 2 ^ 53" using vB by (intro divide_right_mono) simp_all
  finally have vT: "\<bar>v * T - v * (t1 + t2)\<bar> \<le> 2 * M / 2 ^ 53" .
  have "2 * M / 2 ^ 53 \<le> M" using M0 by (simp add: field_simps)
  moreover have "\<bar>v * (t1 + t2)\<bar> \<le> 2 * M" using vs by (simp add: abs_mult)
  ultimately have vT3: "\<bar>v * T\<bar> \<le> 3 * M" using vT by linarith
  have P3: "1 \<le> 3 * M" using M0 by linarith
  from updatePosition_error [OF a v aM vT3 P3 M0(1) big3] obtain z k where
    z: "currentAngle (updatePosition (Fin T) orb) = Fin z"
      "\<bar>z - (a + v * T) - 360 * of_int k\<bar> \<le> (M + 3 * (3 * M) + 360) / 2 ^ 53"
    by blast
  have single: "currentAngle (updatePosition (jadd (Fin t1) (Fin t2)) orb) = Fin z"
    using z(1) T(1) by simp
  define u where "u = M / 2 ^ 53"
  have u0: "0 \<le> u" using M0 by (simp add: u_def)
  define c :: real where "c = 360 / 2 ^ 53"
  have c360: "c \<le> u" using M(1) by (simp add: u_def c_def divide_right_mono)
  have e1: "\<bar>z1 - (a + v * t1) - 360 * of_int k1\<bar> \<le> 4 * u + c"
    using z1(4) by (simp add: u_def c_def field_simps)
  have e2: "\<bar>z2 - (z1 + v * t2) - 360 * of_int k2\<bar> \<le> 4 * u + c"
    using z2(2) by (simp add: u_def c_def field_simps)
  have e3: "\<bar>z - (a + v * T) - 360 * of_int k\<bar> \<le> 10 * u + c"
    using z(2) by (simp add: u_def c_def field_simps)
  have e4: "\<bar>v * T - v * (t1 + t2)\<bar> \<le> 2 * u" using vT by (simp add: u_def)
  define d1 where "d1 = z1 - (a + v * t1) - 360 * of_int k1"
  define d2 where "d2 = z2 - (z1 + v * t2) - 360 * of_int k2"
  define d3 where "d3 = z - (a + v * T) - 360 * of_int k"
  define d4 where "d4 = v * T - v * (t1 + t2)"
  have "z2 - (a + v * (t1 + t2)) - 360 * of_int (k1 + k2) = d1 + d2"
    by (simp add: d1_def d2_def algebra_simps)
  moreover have "\<bar>d1 + d2\<bar> \<le> 10 * u"
    using e1 e2 c360 unfolding d1_def [symmetric] d2_def [symmetric] by linarith
  ultimately have s2: "\<bar>z2 - (a + v * (t1 + t2)) - 360 * of_int (k1 + k2)\<bar> \<le> 10 * u"
    by simp
  have "z - (a + v * (t1 + t2)) - 360 * of_int k = d3 + d4"
    by (simp add: d3_def d4_def algebra_simps)
  moreover have "\<bar>d3 + d4\<bar> \<le> 13 * u"
    using e3 e4 c360 unfolding d3_def [symmetric] d4_def [symmetric] by linarith
  ultimately have s1: "\<bar>z - (a + v * (t1 + t2)) - 360 * of_int k\<bar> \<le> 13 * u"
    by simp
  have "z2 - z - 360 * of_int (k1 + k2 - k) = (d1 + d2) - (d3 + d4)"
    by (simp add: d1_def d2_def d3_def d4_def algebra_simps)
  moreover have "\<bar>(d1 + d2) - (d3 + d4)\<bar> \<le> 23 * u"
    using \<open>\<bar>d1 + d2\<bar> \<le> 10 * u\<close> \<open>\<bar>d3 + d4\<bar> \<le> 13 * u\<close> by linarith
  ultimately have s3: "\<bar>z2 - z - 360 * of_int (k1 + k2 - k)\<bar> \<le> 23 * u"
    by simp
  have "\<bar>z2 - (a + v * (t1 + t2)) - 360 * of_int (k1 + k2)\<bar> \<le> 10 * M / 2 ^ 53"
    "\<bar>z - (a + v * (t1 + t2)) - 360 * of_int k\<bar> \<le> 13 * M / 2 ^ 53"
    "\<bar>z2 - z - 360 * of_int (k1 + k2 - k)\<bar> \<le> 23 * M / 2 ^ 53"
    using s1 s2 s3 by (simp_all add: u_def)
  then show ?thesis using z2(1) single by blast
qed

theorem accumulation_error_bound_witness:
  "currentAngle (example_orbiter 1 1) = Fin 1
   \<and> angVelDegPerSecond (example_orbiter 1 1) = Fin 1
   \<and> (\<exists>z2 z k2 k.
        currentAngle (updatePosition (Fin (1 / 2 ^ 53)) (updatePosition (Fin (1 / 2 ^ 53)) (example_orbiter 1 1)))
          = Fin z2
      \<and> currentAngle (updatePosition (jadd (Fin (1 / 2 ^ 53)) (Fin (1 / 2 ^ 53))) (example_orbiter 1 1)) = Fin z
      \<and> \<bar>z2 - (1 + 1 * (1 / 2 ^ 53 + 1 / 2 ^ 53)) - 360 * of_int k2\<bar> \<le> 10 * 360 / 2 ^ 53
      \<and> \<bar>z - (1 + 1 * (1 / 2 ^ 53 + 1 / 2 ^ 53)) - 360 * of_int k\<bar> \<le> 13 * 360 / 2 ^ 53
      \<and> \<bar>z2 - z - 360 * of_int (k2 - k)\<bar> \<le> 23 * 360 / 2 ^ 53)"
proof -
  have o: "currentAngle (example_orbiter 1 1) = Fin 1" "angVelDegPerSecond (example_orbiter 1 1) = Fin 1"
    by (simp_all add: example_orbiter_def new_Orbiter_def)
  have "(360::real) \<le> 2 ^ 990" by simp
  moreover have "\<bar>(1::real) * (1 / 2 ^ 53)\<bar> \<le> 360" by simp
  moreover have "\<bar>(1::real) / 2 ^ 53 + 1 / 2 ^ 53\<bar> \<le> 2 ^ 1000" by simp
  ultimately show ?thesis
    using accumulation_error_bound [of "example_orbiter 1 1" 1 1 360 "1 / 2 ^ 53" "1 / 2 ^ 53"] o
    by simp
qed
section \<open>The Settings Bus: lemmas and claims\<close>

lemma run_callbacks_calls:
  "snd (fst (run_callbacks cs s w tr)) = tr @ invocations (reached cs s w) s"
  by (induction cs arbitrary: w tr) (auto simp: invocations_def split: cb_result.splits)

lemma run_callbacks_Normal:
  "snd (run_callbacks cs s w tr) = Normal \<Longrightarrow> reached cs s w = cs"
  by (induction cs arbitrary: w tr) (auto split: cb_result.splits)

lemma publishSettings_callbacks:
  "settingsCallbacks (fst (publishSettings s m)) = settingsCallbacks m"
  by (simp add: publishSettings_def Let_def)

lemma publishSettings_calls:
  "calls (fst (publishSettings s m)) = calls m @ invocations (reached (settingsCallbacks m) s (world m)) s"
  by (simp add: publishSettings_def Let_def run_callbacks_calls)

lemma publishSettings_Normal_calls:
  assumes "publishSettings s m = (m', Normal)"
  shows "calls m' = calls m @ invocations (settingsCallbacks m) s"
proof -
  have "snd (run_callbacks (settingsCallbacks m) s (world m) (calls m)) = Normal"
    using assms by (simp add: publishSettings_def Let_def)
  then have "reached (settingsCallbacks m) s (world m) = settingsCallbacks m"
    by (rule run_callbacks_Normal)
  moreover have "m' = fst (publishSettings s m)"
    using assms by simp
  ultimately show ?thesis
    by (simp add: publishSettings_calls)
qed

lemma publishSettings_Normal_callbacks:
  assumes "publishSettings s m = (m', c)"
  shows "settingsCallbacks m' = settingsCallbacks m"
  using publishSettings_callbacks [of s m] assms by simp

lemma run_callbacks_append:
  "run_callbacks (pre @ rest) s w tr =
     (case run_callbacks pre s w tr of
        ((w1, tr1), Normal) \<Rightarrow> run_callbacks rest s w1 tr1
      | (r, Thrown) \<Rightarrow> (r, Thrown))"
  by (induction pre arbitrary: w tr) (auto split: cb_result.splits)

lemma run_callbacks_Normal_calls:
  assumes "run_callbacks cs s w tr = ((w1, tr1), Normal)"
  shows "tr1 = tr @ invocations cs s"
proof -
  have "reached cs s w = cs"
    using assms by (intro run_callbacks_Normal [of cs s w tr]) simp
  then show ?thesis
    using run_callbacks_calls [of cs s w tr] assms by simp
qed

lemma subscribe_all_callbacks:
  "settingsCallbacks (fold (\<lambda>c. subscribeSettings (Some c)) new m) = settingsCallbacks m @ new"
  by (induction new arbitrary: m) auto

lemma subscribe_all_calls:
  "calls (fold (\<lambda>c. subscribeSettings (Some c)) new m) = calls m"
  by (induction new arbitrary: m) auto





subsection \<open>Claims about the Settings Bus\<close>





text \<open>
  C4, as stated, fails: with a throwing reaction subscribed before a returning one, a
  publish invokes the first and never the second.
\<close>

theorem reaction_isolation_counterexample:
  "publishSettings 7 (example_manager [throwing_cb 1, returning_cb 2])
     = (example_manager [throwing_cb 1, returning_cb 2]
          \<lparr>CurrentSettings := 7, calls := [(1, 7)]\<rparr>, Thrown)
   \<and> (2, 7) \<notin> set (calls (fst (publishSettings 7 (example_manager [throwing_cb 1, returning_cb 2]))))"
  by (simp add: publishSettings_def example_manager_def throwing_cb_def returning_cb_def Let_def)

text \<open>
  C4, amended. When the reactions \<open>pre\<close> subscribed before \<open>c\<close> all return and \<open>c\<close>
  throws, the publish ends with that exception: the settings are already exchanged,
  \<open>pre\<close> and \<open>c\<close> have been invoked in order with the snapshot, and none of the reactions
  \<open>post\<close> subscribed after \<open>c\<close> has been invoked.
\<close>

theorem publish_stops_at_first_throw:
  assumes "settingsCallbacks m = pre @ c # post"
    and "run_callbacks pre s (world m) (calls m) = ((w1, tr1), Normal)"
    and "cb_body c s w1 = Throws w2"
  shows "publishSettings s m =
           (m\<lparr>PrevSettings := CurrentSettings m, CurrentSettings := s, world := w2,
               calls := calls m @ invocations pre s @ [(cb_ref c, s)]\<rparr>, Thrown)"
proof -
  have "tr1 = calls m @ invocations pre s"
    using assms(2) by (rule run_callbacks_Normal_calls)
  then have "run_callbacks (pre @ c # post) s (world m) (calls m)
               = ((w2, calls m @ invocations pre s @ [(cb_ref c, s)]), Thrown)"
    using assms(2,3) by (simp add: run_callbacks_append)
  then show ?thesis
    using assms(1) by (simp add: publishSettings_def Let_def)
qed

theorem publish_stops_at_first_throw_witness:
  "publishSettings 7 (example_manager [returning_cb 1, throwing_cb 2, returning_cb 3])
     = (example_manager [returning_cb 1, throwing_cb 2, returning_cb 3]
          \<lparr>PrevSettings := 0, CurrentSettings := 7, world := (), calls := [(1, 7), (2, 7)]\<rparr>, Thrown)"
proof -
  let ?m = "example_manager [returning_cb 1, throwing_cb 2, returning_cb 3]"
  have h1: "settingsCallbacks ?m = [returning_cb 1] @ throwing_cb 2 # [returning_cb 3]"
    by (simp add: example_manager_def)
  have h2: "run_callbacks [returning_cb 1] 7 (world ?m) (calls ?m) = (((), [(1, 7)]), Normal)"
    by (simp add: example_manager_def returning_cb_def)
  have h3: "cb_body (throwing_cb 2) 7 () = Throws ()"
    by (simp add: throwing_cb_def)
  show ?thesis
    using publish_stops_at_first_throw [OF h1 h2 h3]
    by (simp add: invocations_def example_manager_def returning_cb_def throwing_cb_def)
qed

section \<open>Epsilon comparison: lemmas and claims\<close>

lemma epsilon_value: "FloatingPointEqualityEpsilon = Fin (100 / 2 ^ 52)"
proof -
  have "rd (100 / 2 ^ 52) = Fin (100 / 2 ^ 52)"
    by (rule rd_eval [where e = "- 46"]) (simp_all add: pow2_def round_even_def Let_def)
  then show ?thesis
    by (simp add: FloatingPointEqualityEpsilon_def NumberEPSILON_def pow2_def)
qed

lemma float_compare_zero:
  "\<not> FloatEQ (Fin 0) (Fin 0) FloatingPointEqualityEpsilon
   \<and> \<not> FloatLT (Fin 0) (Fin 0) FloatingPointEqualityEpsilon
   \<and> \<not> FloatGT (Fin 0) (Fin 0) FloatingPointEqualityEpsilon
   \<and> FloatEQDivisor (Fin 0) (Fin 0) = Fin 0
   \<and> \<not> SimpleFloatEQ (Fin 0) (Fin 0)"
  by (simp add: FloatEQ_def FloatLT_def FloatGT_def SimpleFloatEQ_def FloatEQDivisor_def
      jsub_def jgt_def rd_0 epsilon_value)

lemma FloatEQ_NaN_NaN: "\<not> FloatEQ NaN NaN epsilon"
  by (simp add: FloatEQ_def SimpleFloatEQ_def FloatEQDivisor_def jsub_def)

lemma FloatEQDivisor_finite:
  "FloatEQDivisor (Fin a) (Fin b) = Fin \<bar>if max a b = 0 then min a b else max a b\<bar>"
  by (auto simp: FloatEQDivisor_def Let_def max_def min_def)

lemma FloatEQDivisor_pos:
  assumes "a \<noteq> 0 \<or> b \<noteq> 0"
  shows "\<exists>d. FloatEQDivisor (Fin a) (Fin b) = Fin d \<and> 0 < d"
  using assms by (auto simp: FloatEQDivisor_finite max_def min_def)

lemma FloatEQ_refl_nonzero:
  assumes "x \<noteq> 0"
  shows "FloatEQ (Fin x) (Fin x) FloatingPointEqualityEpsilon"
  using assms
  by (simp add: FloatEQ_def SimpleFloatEQ_def FloatEQDivisor_finite jsub_def rd_0 epsilon_value)

lemma jdiv_jabs:
  assumes "0 < d" "s \<noteq> NaN"
  shows "jdiv (jabs s) (Fin d) = jabs (jdiv s (Fin d))"
proof (cases s)
  case (Fin a)
  have "\<bar>a\<bar> / d = \<bar>a / d\<bar>" using assms by simp
  then have "rd (\<bar>a\<bar> / d) = jabs (rd (a / d))" by (simp only: rd_abs)
  then show ?thesis using Fin assms by simp
qed (use assms in simp_all)

lemma jdiv_not_NaN:
  assumes "0 < d" "s \<noteq> NaN"
  shows "jdiv s (Fin d) \<noteq> NaN"
  using assms by (cases s) (simp_all add: rd_not_NaN)

lemma three_way:
  assumes "q \<noteq> NaN" "0 < e"
  shows "(jlt q (jneg (Fin e)) \<or> jle (jabs q) (Fin e) \<or> jgt q (Fin e))
    \<and> \<not> (jlt q (jneg (Fin e)) \<and> jle (jabs q) (Fin e))
    \<and> \<not> (jlt q (jneg (Fin e)) \<and> jgt q (Fin e))
    \<and> \<not> (jle (jabs q) (Fin e) \<and> jgt q (Fin e))"
  using assms by (cases q) (auto simp: jgt_def)

lemma Float_trichotomy:
  assumes "a \<noteq> 0 \<or> b \<noteq> 0"
  shows "(FloatLT (Fin a) (Fin b) FloatingPointEqualityEpsilon
          \<or> FloatEQ (Fin a) (Fin b) FloatingPointEqualityEpsilon
          \<or> FloatGT (Fin a) (Fin b) FloatingPointEqualityEpsilon)
    \<and> \<not> (FloatLT (Fin a) (Fin b) FloatingPointEqualityEpsilon
          \<and> FloatEQ (Fin a) (Fin b) FloatingPointEqualityEpsilon)
    \<and> \<not> (FloatLT (Fin a) (Fin b) FloatingPointEqualityEpsilon
          \<and> FloatGT (Fin a) (Fin b) FloatingPointEqualityEpsilon)
    \<and> \<not> (FloatEQ (Fin a) (Fin b) FloatingPointEqualityEpsilon
          \<and> FloatGT (Fin a) (Fin b) FloatingPointEqualityEpsilon)"
proof -
  obtain d where d: "FloatEQDivisor (Fin a) (Fin b) = Fin d" "0 < d"
    using FloatEQDivisor_pos [OF assms] by blast
  define s where "s = jsub (Fin a) (Fin b)"
  have s: "s \<noteq> NaN" by (simp add: s_def jsub_def rd_not_NaN)
  define q where "q = jdiv s (Fin d)"
  have q: "q \<noteq> NaN" unfolding q_def using d(2) s by (rule jdiv_not_NaN)
  have qa: "jdiv (jabs s) (Fin d) = jabs q" unfolding q_def using d(2) s by (rule jdiv_jabs)
  have "(0::real) < 100 / 2 ^ 52" by simp
  from three_way [OF q this] show ?thesis
    by (simp add: FloatLT_def FloatEQ_def FloatGT_def SimpleFloatEQ_def d
        s_def [symmetric] q_def [symmetric] qa epsilon_value)
qed

lemma FloatNE_double_zero:
  assumes "rd a = Fin a"
  shows "FloatNE (Fin a) (Fin 0) FloatingPointEqualityEpsilon"
proof (cases "a = 0")
  case True
  then show ?thesis using float_compare_zero by (simp add: FloatNE_def)
next
  case False
  have d: "FloatEQDivisor (Fin a) (Fin 0) = Fin \<bar>a\<bar>"
    using False by (auto simp: FloatEQDivisor_finite max_def min_def)
  have "\<bar>a\<bar> / \<bar>a\<bar> = 1" using False by simp
  then have "jdiv (jabs (jsub (Fin a) (Fin 0))) (Fin \<bar>a\<bar>) = Fin 1"
    using False assms by (simp add: jsub_def rd_1)
  then show ?thesis
    by (simp add: FloatNE_def FloatEQ_def SimpleFloatEQ_def d epsilon_value)
qed

lemma FloatNE_nonfinite_zero:
  assumes "\<not> isFinite x"
  shows "FloatNE x (Fin 0) epsilon"
  using assms
  by (cases x) (simp_all add: FloatNE_def FloatEQ_def SimpleFloatEQ_def FloatEQDivisor_def jsub_def)

subsection \<open>Claim about the comparisons\<close>

text \<open>
  C2. \<open>FloatEQ(x, x)\<close> holds for every finite \<open>x\<close> other than 0
  (\<open>FloatEQ_refl_nonzero\<close>), \<open>FloatEQ(NaN, NaN)\<close> is false (\<open>FloatEQ_NaN_NaN\<close>), and
  exactly one of \<open>FloatLT\<close>, \<open>FloatEQ\<close>, \<open>FloatGT\<close> holds for two finite values that
  are not both 0 (\<open>Float_trichotomy\<close>). At \<open>(0, 0)\<close> the code does otherwise:
  \<open>SimpleFloatEQ\<close> answers false for two equal finite values, the divisor is 0, the
  quotient \<open>0 / 0\<close> is NaN, and all three comparisons are false.
\<close>

theorem FloatEQ_zero_zero:
  "\<not> FloatEQ (Fin 0) (Fin 0) FloatingPointEqualityEpsilon
   \<and> \<not> FloatLT (Fin 0) (Fin 0) FloatingPointEqualityEpsilon
   \<and> \<not> FloatGT (Fin 0) (Fin 0) FloatingPointEqualityEpsilon
   \<and> FloatEQDivisor (Fin 0) (Fin 0) = Fin 0
   \<and> \<not> SimpleFloatEQ (Fin 0) (Fin 0)"
  by (simp add: FloatEQ_def FloatLT_def FloatGT_def SimpleFloatEQ_def FloatEQDivisor_def
      jsub_def jgt_def rd_0 epsilon_value)

section \<open>Animation step: claims\<close>

text \<open>
  C5, as stated, fails. With animation disabled (\<open>Animate\<close> false), speed 1 and time
  scale 5, the step of the renderer with the epsilon comparison uses the time scale 5:
  a frame one second after the last adds 5 simulated seconds.
\<close>

theorem animation_scale_counterexample:
  "speedScale2 \<lparr>Animate = False, AnimationSpeed = Fin 1, AnimationTimeScale = Fin 5\<rparr> = Fin 5
   \<and> simTime (updateAnimation2 \<lparr>Animate = False, AnimationSpeed = Fin 1, AnimationTimeScale = Fin 5\<rparr>
        (Fin 2000)
        \<lparr>actualStartTime = Some (Fin 0), lastActualTime = Some (Fin 1), simTime = Some (Fin 0),
         orbiters = []\<rparr>) = Some (Fin 5)"
proof -
  have ne: "FloatNE (Fin 1) (Fin 0) FloatingPointEqualityEpsilon"
    by (rule FloatNE_double_zero) (rule rd_1)
  show ?thesis
    using ne
    by (simp add: speedScale2_def updateAnimation2_def simElapsedSeconds2_def
        actualElapsedSeconds_def actualTime_def rd_2 jsub_def rd_1 rd_5)
qed

text \<open>
  C5, amended. In the renderer with the epsilon comparison, every frame adds to the
  simulated time the real elapsed seconds multiplied by the time-scale, and the
  time-scale is \<open>AnimationTimeScale\<close> when \<open>FloatNE(AnimationSpeed, 0)\<close> holds and 0
  otherwise, whatever \<open>Animate\<close> is; \<open>FloatNE(AnimationSpeed, 0)\<close> holds in particular for
  every non-zero binary64 speed, for the infinities and for NaN. In the older renderer
  a frame with \<open>Animate\<close> false changes nothing, and a frame with \<open>Animate\<close> true and a
  speed other than 0 uses \<open>AnimationTimeScale\<close>.
\<close>

theorem animation_step_scale:
  "simTime (updateAnimation2 cs actualMillis st)
     = Some (jadd (case simTime st of None \<Rightarrow> Fin 0 | Some s \<Rightarrow> s)
                  (jmul (actualElapsedSeconds actualMillis st) (speedScale2 cs)))
   \<and> speedScale2 cs = (if FloatNE (AnimationSpeed cs) (Fin 0) FloatingPointEqualityEpsilon
                       then AnimationTimeScale cs else Fin 0)
   \<and> speedScale2 (cs\<lparr>Animate := b\<rparr>) = speedScale2 cs
   \<and> (\<forall>a. AnimationSpeed cs = Fin a \<longrightarrow> a \<noteq> 0 \<longrightarrow> rd a = Fin a \<longrightarrow>
          speedScale2 cs = AnimationTimeScale cs)
   \<and> (\<not> isFinite (AnimationSpeed cs) \<longrightarrow> speedScale2 cs = AnimationTimeScale cs)
   \<and> (\<not> Animate cs \<longrightarrow> updateAnimation1 cs actualMillis st = st)
   \<and> (Animate cs \<longrightarrow> \<not> jeq (AnimationSpeed cs) (Fin 0) \<longrightarrow>
        simTime (updateAnimation1 cs actualMillis st)
          = Some (jadd (case simTime st of None \<Rightarrow> Fin 0 | Some s \<Rightarrow> s)
                       (jmul (actualElapsedSeconds actualMillis st) (AnimationTimeScale cs))))"
proof -
  have a: "speedScale2 cs = AnimationTimeScale cs"
    if "AnimationSpeed cs = Fin a" "rd a = Fin a" for a
    using that FloatNE_double_zero [of a] by (simp add: speedScale2_def)
  have b: "speedScale2 cs = AnimationTimeScale cs" if "\<not> isFinite (AnimationSpeed cs)"
    using that FloatNE_nonfinite_zero [of "AnimationSpeed cs"] by (simp add: speedScale2_def)
  have c: "speedScale2 (cs\<lparr>Animate := b\<rparr>) = speedScale2 cs"
    by (simp add: speedScale2_def)
  have d: "simTime (updateAnimation2 cs actualMillis st)
     = Some (jadd (case simTime st of None \<Rightarrow> Fin 0 | Some s \<Rightarrow> s)
                  (jmul (actualElapsedSeconds actualMillis st) (speedScale2 cs)))"
    by (simp add: updateAnimation2_def simElapsedSeconds2_def)
  have e: "\<not> Animate cs \<longrightarrow> updateAnimation1 cs actualMillis st = st"
    by (simp add: updateAnimation1_def)
  have f: "Animate cs \<longrightarrow> \<not> jeq (AnimationSpeed cs) (Fin 0) \<longrightarrow>
        simTime (updateAnimation1 cs actualMillis st)
          = Some (jadd (case simTime st of None \<Rightarrow> Fin 0 | Some s \<Rightarrow> s)
                       (jmul (actualElapsedSeconds actualMillis st) (AnimationTimeScale cs)))"
    by (simp add: updateAnimation1_def simElapsedSeconds1_def speedScale1_def)
  show ?thesis
    using a b c d e f by (simp add: speedScale2_def)
qed

theorem animation_step_scale_witness:
  "AnimationSpeed \<lparr>Animate = True, AnimationSpeed = Fin 1, AnimationTimeScale = Fin 5\<rparr> = Fin 1
   \<and> rd 1 = Fin 1
   \<and> speedScale2 \<lparr>Animate = True, AnimationSpeed = Fin 1, AnimationTimeScale = Fin 5\<rparr> = Fin 5
   \<and> simTime (updateAnimation2 \<lparr>Animate = True, AnimationSpeed = Fin 1, AnimationTimeScale = Fin 5\<rparr>
        (Fin 2000)
        \<lparr>actualStartTime = Some (Fin 0), lastActualTime = Some (Fin 1), simTime = Some (Fin 0),
         orbiters = []\<rparr>) = Some (Fin 5)
   \<and> simTime (updateAnimation1 \<lparr>Animate = True, AnimationSpeed = Fin 1, AnimationTimeScale = Fin 5\<rparr>
        (Fin 2000)
        \<lparr>actualStartTime = Some (Fin 0), lastActualTime = Some (Fin 1), simTime = Some (Fin 0),
         orbiters = []\<rparr>) = Some (Fin 5)
   \<and> speedScale2 \<lparr>Animate = False, AnimationSpeed = PInf, AnimationTimeScale = Fin 5\<rparr> = Fin 5
   \<and> updateAnimation1 \<lparr>Animate = False, AnimationSpeed = Fin 1, AnimationTimeScale = Fin 5\<rparr>
        (Fin 2000)
        \<lparr>actualStartTime = Some (Fin 0), lastActualTime = Some (Fin 1), simTime = Some (Fin 0),
         orbiters = []\<rparr>
       = \<lparr>actualStartTime = Some (Fin 0), lastActualTime = Some (Fin 1), simTime = Some (Fin 0),
         orbiters = []\<rparr>"
proof -
  let ?cs = "\<lparr>Animate = True, AnimationSpeed = Fin 1, AnimationTimeScale = Fin 5\<rparr>"
  let ?cs' = "\<lparr>Animate = False, AnimationSpeed = PInf, AnimationTimeScale = Fin 5\<rparr>"
  let ?cs'' = "\<lparr>Animate = False, AnimationSpeed = Fin 1, AnimationTimeScale = Fin 5\<rparr>"
  let ?st = "\<lparr>actualStartTime = Some (Fin 0), lastActualTime = Some (Fin 1), simTime = Some (Fin 0),
         orbiters = []\<rparr>"
  have e: "actualElapsedSeconds (Fin 2000) ?st = Fin 1"
    by (simp add: actualElapsedSeconds_def actualTime_def rd_2 jsub_def rd_1)
  have "\<forall>a. AnimationSpeed ?cs = Fin a \<longrightarrow> a \<noteq> 0 \<longrightarrow> rd a = Fin a \<longrightarrow>
          speedScale2 ?cs = AnimationTimeScale ?cs"
    using animation_step_scale [of ?cs "Fin 2000" ?st True] by blast
  then have s: "speedScale2 ?cs = Fin 5"
    by (simp add: rd_1)
  have "simTime (updateAnimation2 ?cs (Fin 2000) ?st)
          = Some (jadd (case simTime ?st of None \<Rightarrow> Fin 0 | Some s \<Rightarrow> s)
                  (jmul (actualElapsedSeconds (Fin 2000) ?st) (speedScale2 ?cs)))"
    using animation_step_scale [of ?cs "Fin 2000" ?st True] by (rule conjunct1)
  then have t2: "simTime (updateAnimation2 ?cs (Fin 2000) ?st) = Some (Fin 5)"
    by (simp add: s e rd_5)
  have "Animate ?cs \<longrightarrow> \<not> jeq (AnimationSpeed ?cs) (Fin 0) \<longrightarrow>
        simTime (updateAnimation1 ?cs (Fin 2000) ?st)
          = Some (jadd (case simTime ?st of None \<Rightarrow> Fin 0 | Some s \<Rightarrow> s)
                       (jmul (actualElapsedSeconds (Fin 2000) ?st) (AnimationTimeScale ?cs)))"
    using animation_step_scale [of ?cs "Fin 2000" ?st True] by blast
  then have t1: "simTime (updateAnimation1 ?cs (Fin 2000) ?st) = Some (Fin 5)"
    by (simp add: e rd_5)
  have "\<not> isFinite (AnimationSpeed ?cs') \<longrightarrow> speedScale2 ?cs' = AnimationTimeScale ?cs'"
    using animation_step_scale [of ?cs' "Fin 2000" ?st True] by blast
  then have s': "speedScale2 ?cs' = Fin 5"
    by simp
  have "\<not> Animate ?cs'' \<longrightarrow> updateAnimation1 ?cs'' (Fin 2000) ?st = ?st"
    using animation_step_scale [of ?cs'' "Fin 2000" ?st True] by blast
  then have u: "updateAnimation1 ?cs'' (Fin 2000) ?st = ?st"
    by simp
  show ?thesis
    using s t2 t1 s' u by (simp add: rd_1)
qed

section \<open>The time formatter: lemmas and claims\<close>

lemma fixed3_59000: "fixed3 59000 = ''59.000''"
  by (simp add: fixed3_def Let_def dec.simps digit_def)

lemma fixed3_60000: "fixed3 60000 = ''60.000''"
  by (simp add: fixed3_def Let_def dec.simps digit_def)

lemma fixed3_1017: "fixed3 1017 = ''1.017''"
  by (simp add: fixed3_def Let_def dec.simps digit_def)

lemma fixed3_1000: "fixed3 1000 = ''1.000''"
  by (simp add: fixed3_def Let_def dec.simps digit_def)

lemma humanTimeEpsilon_value: "humanTimeEpsilon = Fin (1152921504606847 / 2305843009213693952)"
  unfolding humanTimeEpsilon_def
  by (rule rd_eval [where e = "- 11"]) (simp_all add: pow2_def round_even_def Let_def)

lemma scaled_59:
  "scaled (Fin 59) = \<lparr>retTime = Fin 59, retUnit = ''second'', retSingular = '''', retPlural = ''s''\<rparr>"
  by (simp add: scaled_def scaleFactors_def checkScale_def jgt_def)

lemma scaled_60:
  "scaled (Fin 60) = \<lparr>retTime = Fin 60, retUnit = ''second'', retSingular = '''', retPlural = ''s''\<rparr>"
  by (simp add: scaled_def scaleFactors_def checkScale_def jgt_def)

lemma scaled_minus_60:
  "scaled (Fin (- 60)) = \<lparr>retTime = Fin 60, retUnit = ''second'', retSingular = '''', retPlural = ''s''\<rparr>"
  by (simp add: scaled_def scaleFactors_def checkScale_def jgt_def)

lemma humanTime_59: "humanTime (Fin 59) = Some ''59.000 seconds''"
proof -
  have a: "jsub (Fin 59) (Fin 1) = Fin 58"
    using rd_of_int [of 58] by (simp add: jsub_def)
  have b: "jdiv (Fin 58) (Fin 59) = Fin (1106816857574105 / 1125899906842624)"
    by simp (rule rd_eval [where e = "- 1"], simp_all add: pow2_def round_even_def Let_def)
  have "\<not> FloatEQ (Fin 59) (Fin 1) humanTimeEpsilon"
    by (simp add: FloatEQ_def SimpleFloatEQ_def FloatEQDivisor_finite a b humanTimeEpsilon_value
        del: jdiv.simps)
  then show ?thesis
    by (simp add: humanTime_def scaled_59 toFixed3_def fixed3_59000)
qed

lemma not_FloatEQ_60: "\<not> FloatEQ (Fin 60) (Fin 1) humanTimeEpsilon"
proof -
  have a: "jsub (Fin 60) (Fin 1) = Fin 59"
    using rd_of_int [of 59] by (simp add: jsub_def)
  have b: "jdiv (Fin 59) (Fin 60) = Fin (8857079267161975 / 9007199254740992)"
    by simp (rule rd_eval [where e = "- 1"], simp_all add: pow2_def round_even_def Let_def)
  show ?thesis
    by (simp add: FloatEQ_def SimpleFloatEQ_def FloatEQDivisor_finite a b humanTimeEpsilon_value
        del: jdiv.simps)
qed

lemma humanTime_60: "humanTime (Fin 60) = Some ''60.000 seconds''"
  using not_FloatEQ_60 by (simp add: humanTime_def scaled_60 toFixed3_def fixed3_60000)

lemma humanTime_minus_60: "humanTime (Fin (- 60)) = Some ''60.000 seconds''"
  using not_FloatEQ_60 by (simp add: humanTime_def scaled_minus_60 toFixed3_def fixed3_60000)

lemma humanTime_3661: "humanTime (Fin 3661) = Some ''1.017 hours''"
proof -
  have j1: "jdiv (Fin 3661) (Fin 60) = Fin (4293666207240465 / 70368744177664)"
    by simp (rule rd_eval [where e = 5], simp_all add: pow2_def round_even_def Let_def)
  have j2: "jdiv (Fin (4293666207240465 / 70368744177664)) (Fin 60)
              = Fin (286244413816031 / 281474976710656)"
    by simp (rule rd_eval [where e = 0], simp_all add: pow2_def round_even_def Let_def)
  have sc: "scaled (Fin 3661)
              = \<lparr>retTime = Fin (286244413816031 / 281474976710656), retUnit = ''hour'',
                 retSingular = '''', retPlural = ''s''\<rparr>"
    by (simp add: scaled_def scaleFactors_def checkScale_def jgt_def j1 j2 del: jdiv.simps)
  have s3: "jsub (Fin (286244413816031 / 281474976710656)) (Fin 1)
              = Fin (4769437105375 / 281474976710656)"
    by (simp add: jsub_def) (rule rd_eval [where e = "- 6"], simp_all add: pow2_def round_even_def Let_def)
  have j3: "jdiv (Fin (4769437105375 / 281474976710656)) (Fin (286244413816031 / 281474976710656))
              = Fin (4802527436562251 / 288230376151711744)"
    by simp (rule rd_eval [where e = "- 6"], simp_all add: pow2_def round_even_def Let_def)
  have ne: "\<not> FloatEQ (Fin (286244413816031 / 281474976710656)) (Fin 1) humanTimeEpsilon"
    by (simp add: FloatEQ_def SimpleFloatEQ_def FloatEQDivisor_finite s3 j3 humanTimeEpsilon_value
        del: jdiv.simps)
  have tf: "toFixed3 (Fin (286244413816031 / 281474976710656)) = Some ''1.017''"
    by (simp add: toFixed3_def fixed3_1017)
  show ?thesis
    using ne by (simp add: humanTime_def sc tf)
qed

lemma humanTime_singular: "humanTime (Fin (7681 / 128)) = Some ''1.000 minute''"
proof -
  have j1: "jdiv (Fin (7681 / 128)) (Fin 60) = Fin (4504186033571977 / 4503599627370496)"
    by simp (rule rd_eval [where e = 0], simp_all add: pow2_def round_even_def Let_def)
  have sc: "scaled (Fin (7681 / 128))
              = \<lparr>retTime = Fin (4504186033571977 / 4503599627370496), retUnit = ''minute'',
                 retSingular = '''', retPlural = ''s''\<rparr>"
    by (simp add: scaled_def scaleFactors_def checkScale_def jgt_def j1 del: jdiv.simps)
  have s3: "jsub (Fin (4504186033571977 / 4503599627370496)) (Fin 1)
              = Fin (586406201481 / 4503599627370496)"
    by (simp add: jsub_def) (rule rd_eval [where e = "- 13"], simp_all add: pow2_def round_even_def Let_def)
  have j3: "jdiv (Fin (586406201481 / 4503599627370496)) (Fin (4504186033571977 / 4503599627370496))
              = Fin (4803214184018807 / 36893488147419103232)"
    by simp (rule rd_eval [where e = "- 13"], simp_all add: pow2_def round_even_def Let_def)
  have eq: "FloatEQ (Fin (4504186033571977 / 4503599627370496)) (Fin 1) humanTimeEpsilon"
    by (simp add: FloatEQ_def SimpleFloatEQ_def FloatEQDivisor_finite s3 j3 humanTimeEpsilon_value
        del: jdiv.simps)
  have tf: "toFixed3 (Fin (4504186033571977 / 4503599627370496)) = Some ''1.000''"
    by (simp add: toFixed3_def fixed3_1000)
  show ?thesis
    using eq by (simp add: humanTime_def sc tf)
qed

lemma humanTime2_59: "humanTime2 (Fin 59) = Some ''59.000 secondss''"
  by (simp add: humanTime2_def scaleFactors2_def jgt_def toFixed3_def fixed3_59000)

lemma humanTime2_minus_60: "humanTime2 (Fin (- 60)) = Some ''-60.000 secondss''"
  by (simp add: humanTime2_def scaleFactors2_def jgt_def toFixed3_def fixed3_60000)

subsection \<open>Claim about the formatter\<close>

text \<open>
  C7, as stated, fails at the input 60: the unit changes only when the value is
  strictly greater than the factor, so 60 seconds stay in seconds.
\<close>

theorem humanTime_60_counterexample:
  "humanTime (Fin 60) = Some ''60.000 seconds'' \<and> humanTime (Fin 60) \<noteq> Some ''1.000 minute''"
  using not_FloatEQ_60 by (simp add: humanTime_def scaled_60 toFixed3_def fixed3_60000)

text \<open>
  C7, amended, for the \<open>humanTime\<close> of the \<open>Utils\<close> that compares with \<open>FloatEQ\<close>.
  \<open>humanTime(59)\<close> is \<open>59.000 seconds\<close>; \<open>humanTime(60)\<close> is
  \<open>60.000 seconds\<close>, the singular minute-scale \<open>1.000 minute\<close> being returned for inputs
  just above 60 (here \<open>60.0078125\<close>); \<open>humanTime(3661)\<close> is the hour-scale
  \<open>1.017 hours\<close>; and for the input \<open>-60\<close> the magnitude 60 is scaled like the input
  60: it stays in seconds.
\<close>

theorem humanTime_examples:
  "humanTime (Fin 59) = Some ''59.000 seconds''
   \<and> humanTime (Fin 60) = Some ''60.000 seconds''
   \<and> humanTime (Fin (7681 / 128)) = Some ''1.000 minute''
   \<and> humanTime (Fin 3661) = Some ''1.017 hours''
   \<and> retTime (scaled (Fin (- 60))) = Fin 60
   \<and> retUnit (scaled (Fin (- 60))) = ''second''"
  by (simp add: humanTime_59 humanTime_60 humanTime_singular humanTime_3661 scaled_minus_60)

section \<open>Camera fit: lemmas and claims\<close>

lemma fit2_target:
  "map_option target (orbitControls (fitCameraToObject2 tanf mathPI b asp lookAt st))
     = map_option (\<lambda>oc. case lookAt of None \<Rightarrow> origin | Some p \<Rightarrow> p) (orbitControls st)"
  by (cases "orbitControls st"; cases lookAt) (simp_all add: fitCameraToObject2_def Let_def origin_def)

lemma getCenter_symmetric:
  "getCenter \<lparr>box_min = Vector3 (Fin (- a)) (Fin (- b)) (Fin (- c)),
              box_max = Vector3 (Fin a) (Fin b) (Fin c)\<rparr> = origin"
  by (simp add: getCenter_def origin_def rd_0)

lemma getCenter_example: "getCenter (example_box 0 2) = Vector3 (Fin 1) (Fin 1) (Fin 1)"
  by (simp add: getCenter_def isEmpty_def example_box_def rd_2 rd_1)

text \<open>
  C6, as stated, fails. With no look-at target and a scene box from \<open>(0, 0, 0)\<close> to
  \<open>(2, 2, 2)\<close>, the renderer with look-at support sets the orbit-control target to
  \<open>(0, 0, 0)\<close>, while the center of the box is \<open>(1, 1, 1)\<close>.
\<close>

theorem fit_target_counterexample:
  "map_option target
     (orbitControls (fitCameraToObject2 example_tan (Fin 3) (example_box 0 2) (Fin 1) None example_fit_state))
     = Some (Vector3 (Fin 0) (Fin 0) (Fin 0))
   \<and> getCenter (example_box 0 2) = Vector3 (Fin 1) (Fin 1) (Fin 1)"
  by (simp add: fit2_target getCenter_example example_fit_state_def origin_def)

text \<open>
  C6, amended. After the fit of the renderer with look-at support, when its orbit
  controls exist, their target is the world position of the look-at object when one is
  set and the origin \<open>(0, 0, 0)\<close> otherwise; the origin is the center of the scene box
  whenever that center is the origin, in particular for a box symmetric about the
  origin. The older renderer never creates orbit controls, and its fit leaves it
  without any: it sets no target.
\<close>

theorem fit_target:
  assumes "orbitControls st = Some oc"
    and "orbitControls st1 = None"
  shows "map_option target (orbitControls (fitCameraToObject2 tanf mathPI b asp (Some p) st)) = Some p
    \<and> map_option target (orbitControls (fitCameraToObject2 tanf mathPI b asp None st)) = Some origin
    \<and> (getCenter b = origin \<longrightarrow>
         map_option target (orbitControls (fitCameraToObject2 tanf mathPI b asp None st))
           = Some (getCenter b))
    \<and> map_option target
         (orbitControls (fitCameraToObject2 tanf mathPI
            \<lparr>box_min = Vector3 (Fin (- x)) (Fin (- y)) (Fin (- z)),
             box_max = Vector3 (Fin x) (Fin y) (Fin z)\<rparr> asp None st))
        = Some (getCenter \<lparr>box_min = Vector3 (Fin (- x)) (Fin (- y)) (Fin (- z)),
                           box_max = Vector3 (Fin x) (Fin y) (Fin z)\<rparr>)
    \<and> orbitControls (fitCameraToObject1 tanf mathPI b asp st1) = None"
proof -
  have "orbitControls (fitCameraToObject1 tanf mathPI b asp st1) = None"
    using assms(2) by (simp add: fitCameraToObject1_def Let_def)
  then show ?thesis
    using assms(1) by (simp add: fit2_target getCenter_symmetric)
qed

theorem fit_target_witness:
  "orbitControls example_fit_state
     = Some \<lparr>target = Vector3 (Fin 9) (Fin 9) (Fin 9), maxDistance = Fin 1\<rparr>
   \<and> orbitControls older_fit_state = None
   \<and> map_option target
       (orbitControls (fitCameraToObject2 example_tan (Fin 3) (example_box (- 1) 1) (Fin 1)
          (Some (Vector3 (Fin 4) (Fin 5) (Fin 6))) example_fit_state))
       = Some (Vector3 (Fin 4) (Fin 5) (Fin 6))
   \<and> getCenter (example_box (- 1) 1) = origin
   \<and> map_option target
       (orbitControls (fitCameraToObject2 example_tan (Fin 3) (example_box (- 1) 1) (Fin 1) None
          example_fit_state))
       = Some (getCenter (example_box (- 1) 1))
   \<and> orbitControls (fitCameraToObject1 example_tan (Fin 3) (example_box 0 2) (Fin 1) older_fit_state)
       = None"
proof -
  have o: "orbitControls example_fit_state
     = Some \<lparr>target = Vector3 (Fin 9) (Fin 9) (Fin 9), maxDistance = Fin 1\<rparr>"
    by (simp add: example_fit_state_def)
  have n: "orbitControls older_fit_state = None"
    by (simp add: older_fit_state_def)
  have c: "getCenter (example_box (- 1) 1) = origin"
    using getCenter_symmetric [of 1 1 1] by (simp add: example_box_def)
  show ?thesis
    using fit_target [OF o n, of example_tan "Fin 3" "example_box (- 1) 1" "Fin 1" "Vector3 (Fin 4) (Fin 5) (Fin 6)" 1 1 1]
      fit_target [OF o n, of example_tan "Fin 3" "example_box 0 2" "Fin 1" "Vector3 (Fin 4) (Fin 5) (Fin 6)" 1 1 1]
      o n c
    by simp
qed
section \<open>The tree of \<open>CelestialObject\<close>s: lemmas and claim\<close>

lemma length_attach: "length (attach this c h1) = length h1"
  by (simp add: attach_def Let_def)

lemma attach_children:
  assumes "this < length h1" "c < length h1" "this \<noteq> c" "a < length h1"
  shows "ChildObjects (attach this c h1 ! a)
         = (if a = this then ChildObjects (h1 ! this) @ [c] else ChildObjects (h1 ! a))"
  using assms by (simp add: attach_def Let_def nth_list_update)

lemma attach_parent:
  assumes "this < length h1" "c < length h1" "this \<noteq> c" "a < length h1"
  shows "ParentObject (attach this c h1 ! a)
         = (if a = c then Some (Node this) else ParentObject (h1 ! a))"
  using assms by (simp add: attach_def Let_def nth_list_update)

lemma tree_ok_node:
  assumes "tree_ok h r" "r \<le> a" "a < length h"
  shows "(\<forall>c \<in> set (ChildObjects (h ! a)).
           a < c \<and> c < length h \<and> ParentObject (h ! c) = Some (Node a))
        \<and> distinct (ChildObjects (h ! a))
        \<and> (a \<noteq> r \<longrightarrow>
             (\<exists>p \<in> {r..<a}. ParentObject (h ! a) = Some (Node p) \<and> a \<in> set (ChildObjects (h ! p))))"
proof -
  have "a \<in> {r..<length h}" using assms(2,3) by simp
  with assms(1) show ?thesis unfolding tree_ok_def by (rule bspec)
qed

lemma tree_ok_child:
  assumes "tree_ok h r" "r \<le> a" "a < length h" "c \<in> set (ChildObjects (h ! a))"
  shows "a < c \<and> c < length h \<and> ParentObject (h ! c) = Some (Node a)"
  using tree_ok_node [OF assms(1-3)] assms(4) by blast

lemma tree_ok_distinct:
  assumes "tree_ok h r" "r \<le> a" "a < length h"
  shows "distinct (ChildObjects (h ! a))"
  using tree_ok_node [OF assms] by blast

lemma tree_ok_parent:
  assumes "tree_ok h r" "r < a" "a < length h"
  shows "\<exists>p. r \<le> p \<and> p < a \<and> ParentObject (h ! a) = Some (Node p) \<and> a \<in> set (ChildObjects (h ! p))"
proof -
  have "r \<le> a" "a \<noteq> r" using assms(2) by simp_all
  with tree_ok_node [OF assms(1) \<open>r \<le> a\<close> assms(3)]
  obtain p where "p \<in> {r..<a}" "ParentObject (h ! a) = Some (Node p)" "a \<in> set (ChildObjects (h ! p))"
    by blast
  then show ?thesis by (intro exI [of _ p]) simp
qed

lemma tree_ok_attach:
  assumes t: "this < length h"
    and ok: "tree_ok h this"
    and len: "length h < length h1"
    and pre: "\<forall>a < length h. h1 ! a = h ! a"
    and ok1: "tree_ok h1 (length h)"
    and h3: "h3 = attach this (length h) h1"
  shows "tree_ok h3 this"
proof -
  let ?c = "length h"
  have l3: "length h3 = length h1" by (simp add: h3 length_attach)
  have old: "h1 ! a = h ! a" if "a < ?c" for a
    using pre that by simp
  have tl: "this < length h1" "this \<noteq> ?c" using t len by simp_all
  have ch: "ChildObjects (h3 ! a) = (if a = this then ChildObjects (h ! this) @ [?c] else ChildObjects (h1 ! a))"
    if "a < length h1" for a
    unfolding h3 using attach_children [OF tl(1) len tl(2) that] old [OF t] by simp
  have pa: "ParentObject (h3 ! a) = (if a = ?c then Some (Node this) else ParentObject (h1 ! a))"
    if "a < length h1" for a
    unfolding h3 using attach_parent [OF tl(1) len tl(2) that] by simp
  have okc: "a < c \<and> c < length h \<and> ParentObject (h ! c) = Some (Node a)"
    if "this \<le> a" "a < length h" "c \<in> set (ChildObjects (h ! a))" for a c
    using ok that by (rule tree_ok_child)
  have okd: "distinct (ChildObjects (h ! a))" if "this \<le> a" "a < length h" for a
    using ok that by (rule tree_ok_distinct)
  have okp: "\<exists>p. this \<le> p \<and> p < a \<and> ParentObject (h ! a) = Some (Node p) \<and> a \<in> set (ChildObjects (h ! p))"
    if "this < a" "a < length h" for a
    using ok that by (rule tree_ok_parent)
  have ok1c: "a < c \<and> c < length h1 \<and> ParentObject (h1 ! c) = Some (Node a)"
    if "?c \<le> a" "a < length h1" "c \<in> set (ChildObjects (h1 ! a))" for a c
    using ok1 that by (rule tree_ok_child)
  have ok1d: "distinct (ChildObjects (h1 ! a))" if "?c \<le> a" "a < length h1" for a
    using ok1 that by (rule tree_ok_distinct)
  have ok1p: "\<exists>p. ?c \<le> p \<and> p < a \<and> ParentObject (h1 ! a) = Some (Node p) \<and> a \<in> set (ChildObjects (h1 ! p))"
    if "?c < a" "a < length h1" for a
    using ok1 that by (rule tree_ok_parent)
  show ?thesis
    unfolding tree_ok_def
  proof (intro ballI conjI impI)
    fix a c
    assume a: "a \<in> {this..<length h3}" and c: "c \<in> set (ChildObjects (h3 ! a))"
    have "a < c \<and> c < length h3 \<and> ParentObject (h3 ! c) = Some (Node a)"
    proof (cases "a = this")
      case True
      then have "c = ?c \<or> c \<in> set (ChildObjects (h ! this))"
        using c ch [of a] t len by auto
      then show ?thesis
      proof
        assume "c = ?c"
        then show ?thesis using True t len by (simp add: l3 pa)
      next
        assume "c \<in> set (ChildObjects (h ! this))"
        from okc [OF _ t this] show ?thesis
          using True len by (simp add: l3 pa old)
      qed
    next
      case False
      then have c1: "c \<in> set (ChildObjects (h1 ! a))"
        using a c ch [of a] by (simp add: l3)
      show ?thesis
      proof (cases "a < ?c")
        case True
        then have "c \<in> set (ChildObjects (h ! a))" using c1 by (simp add: old)
        from okc [OF _ True this] show ?thesis
          using a len by (simp add: l3 pa old)
      next
        case False
        then have "?c \<le> a" by simp
        from ok1c [OF this _ c1] show ?thesis
          using a False by (simp add: l3 pa)
      qed
    qed
    then show "a < c" "c < length h3" "ParentObject (h3 ! c) = Some (Node a)"
      by simp_all
  next
    fix a
    assume a: "a \<in> {this..<length h3}"
    show "distinct (ChildObjects (h3 ! a))"
    proof (cases "a = this")
      case True
      have "?c \<notin> set (ChildObjects (h ! this))"
        using okc [of this ?c] t by auto
      then show ?thesis
        using True t len okd [of this] by (simp add: ch)
    next
      case False
      show ?thesis
      proof (cases "a < ?c")
        case True
        then show ?thesis using False a okd [of a] by (simp add: ch l3 old)
      next
        case False
        then show ?thesis using \<open>a \<noteq> this\<close> a ok1d [of a] by (simp add: ch l3)
      qed
    qed
  next
    fix a
    assume a: "a \<in> {this..<length h3}" and ne: "a \<noteq> this"
    consider "a < ?c" | "a = ?c" | "?c < a" by linarith
    then show "\<exists>p \<in> {this..<a}. ParentObject (h3 ! a) = Some (Node p) \<and> a \<in> set (ChildObjects (h3 ! p))"
    proof cases
      case 1
      then obtain p where p: "this \<le> p" "p < a" "ParentObject (h ! a) = Some (Node p)"
          "a \<in> set (ChildObjects (h ! p))"
        using okp [of a] a ne by auto
      have "ParentObject (h3 ! a) = Some (Node p)"
        using 1 len p by (simp add: pa old)
      moreover have "a \<in> set (ChildObjects (h3 ! p))"
        using 1 len p by (cases "p = this") (simp_all add: ch old)
      ultimately show ?thesis using p by auto
    next
      case 2
      have "ParentObject (h3 ! a) = Some (Node this)" using 2 len by (simp add: pa)
      moreover have "a \<in> set (ChildObjects (h3 ! this))" using 2 t len by (simp add: ch)
      ultimately show ?thesis using 2 t by auto
    next
      case 3
      then obtain p where p: "?c \<le> p" "p < a" "ParentObject (h1 ! a) = Some (Node p)"
          "a \<in> set (ChildObjects (h1 ! p))"
        using ok1p [of a] a by (auto simp: l3)
      have "ParentObject (h3 ! a) = Some (Node p)"
        using 3 a p by (simp add: pa l3)
      moreover have "a \<in> set (ChildObjects (h3 ! p))"
        using 3 a p t by (simp add: ch l3)
      ultimately show ?thesis using p t by auto
    qed
  qed
qed

lemma tree_ok_fresh: "tree_ok (h @ [assigned f par]) (length h)"
  by (simp add: tree_ok_def assigned_def)

lemma construct_inv:
  "fst (construct p h) = length h
   \<and> length h < length (snd (construct p h))
   \<and> (\<forall>a < length h. snd (construct p h) ! a = h ! a)
   \<and> tree_ok (snd (construct p h)) (length h)
   \<and> (\<forall>q. ParentObject (snd (construct p h) ! length h) \<noteq> Some (Node q))"
  and "this < length h \<Longrightarrow> tree_ok h this \<Longrightarrow>
       length h \<le> length (construct_children this cs h)
       \<and> (\<forall>a < this. construct_children this cs h ! a = h ! a)
       \<and> tree_ok (construct_children this cs h) this
       \<and> ParentObject (construct_children this cs h ! this) = ParentObject (h ! this)"
proof (induction p h and this cs h rule: construct_construct_children.induct)
  case (1 h)
  show ?case by (simp add: tree_ok_fresh nth_append) (simp add: assigned_def)
next
  case (2 f par h)
  show ?case
    by (cases par) (simp_all add: tree_ok_fresh nth_append, simp_all add: assigned_def)
next
  case (3 f par cs h)
  let ?h1 = "h @ [assigned (Some f) par]"
  have "length h < length ?h1" by simp
  moreover have "tree_ok ?h1 (length h)" by (rule tree_ok_fresh)
  ultimately have ih: "length ?h1 \<le> length (construct_children (length h) cs ?h1)
       \<and> (\<forall>a < length h. construct_children (length h) cs ?h1 ! a = ?h1 ! a)
       \<and> tree_ok (construct_children (length h) cs ?h1) (length h)
       \<and> ParentObject (construct_children (length h) cs ?h1 ! length h) = ParentObject (?h1 ! length h)"
    by (rule 3)
  have "\<forall>q. ParentObject (?h1 ! length h) \<noteq> Some (Node q)"
    by (cases par) (simp_all add: assigned_def)
  then show ?case using ih by (auto simp: nth_append)
next
  case (4 this h)
  then show ?case by simp
next
  case (5 this childPartial rest h)
  obtain childObject h1 where c: "construct childPartial h = (childObject, h1)"
    by (cases "construct childPartial h")
  note ih1 = "5.IH"(1) [unfolded c fst_conv snd_conv]
  have c1: "childObject = length h" "length h < length h1"
      "\<forall>a < length h. h1 ! a = h ! a" "tree_ok h1 (length h)"
    using ih1 by blast+
  let ?h3 = "attach this childObject h1"
  have ok3: "tree_ok ?h3 this"
    using "5.prems" c1(2,3,4) unfolding c1(1)
    by (rule tree_ok_attach [where h = h and ?h1.0 = h1]) (rule refl)
  have l3: "this < length ?h3" using "5.prems"(1) c1 by (simp add: length_attach)
  from "5.IH"(2) [OF c [symmetric] l3 ok3]
  have ih: "length ?h3 \<le> length (construct_children this rest ?h3)"
    "\<forall>a < this. construct_children this rest ?h3 ! a = ?h3 ! a"
    "tree_ok (construct_children this rest ?h3) this"
    "ParentObject (construct_children this rest ?h3 ! this) = ParentObject (?h3 ! this)"
    by simp_all
  have tl: "this < length h1" "this \<noteq> childObject" "childObject < length h1"
    using "5.prems"(1) c1 by simp_all
  have low: "?h3 ! a = h ! a" if "a < this" for a
    using that tl c1 "5.prems"(1) by (simp add: attach_def Let_def nth_list_update)
  have par: "ParentObject (?h3 ! this) = ParentObject (h ! this)"
    using attach_parent [OF tl(1) tl(3) tl(2) tl(1)] tl c1 "5.prems"(1) by simp
  show ?case
    using ih c c1 low par by (simp add: length_attach)
qed

lemma construct_nodes:
  "length (snd (construct p h)) = length h + nodes p"
  and "length (construct_children this cs h) = length h + sum_list (map nodes cs)"
proof (induction p h and this cs h rule: construct_construct_children.induct)
  case (5 this childPartial rest h)
  obtain childObject h1 where c: "construct childPartial h = (childObject, h1)"
    by (cases "construct childPartial h")
  have "length h1 = length h + nodes childPartial"
    using "5.IH"(1) c by simp
  moreover have "length (construct_children this rest (attach this childObject h1))
      = length (attach this childObject h1) + sum_list (map nodes rest)"
    using c by (intro "5.IH"(2)) simp
  ultimately show ?case using c by (simp add: length_attach)
qed simp_all

lemma construct_js_construct:
  "construct_js p h = Some r \<Longrightarrow> construct p h = r"
  and "construct_children_js this cs h = Some h' \<Longrightarrow> construct_children this cs h = h'"
proof (induction p h and this cs h arbitrary: r and h' rule: construct_construct_children.induct)
  case (5 this childPartial rest h)
  from "5.prems" obtain childObject h1 where
    c: "construct_js childPartial h = Some (childObject, h1)"
    and r: "construct_children_js this rest (attach this childObject h1) = Some h'"
    by (auto split: option.splits)
  have c': "construct childPartial h = (childObject, h1)"
    using c by (rule "5.IH"(1))
  have "construct_children this rest (attach this childObject h1) = h'"
    using c' [symmetric] r by (rule "5.IH"(2))
  then show ?case using c' by simp
qed auto

lemma climb_more: "climb h n a = Some r \<Longrightarrow> n \<le> m \<Longrightarrow> climb h m a = Some r"
proof (induction n arbitrary: m a)
  case 0
  then show ?case by simp
next
  case (Suc n)
  then obtain m' where m: "m = Suc m'" "n \<le> m'" by (cases m) auto
  show ?case
    using Suc.prems(1) Suc.IH [OF _ m(2)] unfolding m(1)
    by (auto split: option.splits pref.splits)
qed

lemma climb_root:
  assumes ok: "tree_ok h 0" and root: "\<forall>q. ParentObject (h ! 0) \<noteq> Some (Node q)"
  shows "a < length h \<Longrightarrow> climb h (Suc a) a = Some 0"
proof (induction a rule: less_induct)
  case (less a)
  show ?case
  proof (cases "a = 0")
    case True
    then show ?thesis using root by (auto split: option.splits pref.splits)
  next
    case False
    then obtain p where p: "p < a" "ParentObject (h ! a) = Some (Node p)"
      using tree_ok_parent [OF ok _ less.prems] by auto
    have "climb h (Suc p) p = Some 0"
      using p(1) less.prems by (intro less.IH) simp_all
    moreover have "Suc p \<le> a" using p(1) by simp
    ultimately have "climb h a p = Some 0"
      by (rule climb_more)
    then show ?thesis using p(2) by simp
  qed
qed

lemma setObj3D_frame:
  "ParentObject (setObj3D b v h ! a) = ParentObject (h ! a)
   \<and> ChildObjects (setObj3D b v h ! a) = ChildObjects (h ! a)
   \<and> length (setObj3D b v h) = length h"
  by (cases "b < length h") (simp_all add: setObj3D_def nth_list_update list_update_beyond)

lemma construct_example: "construct example_payload [] = (0, example_heap)"
  by (simp add: example_payload_def example_heap_def assigned_def attach_def Let_def)

text \<open>
  C9. In the store left by the constructor (either variant, when it returns), every
  object \<open>a\<close> other than the root has as \<open>ParentObject\<close> a \<open>CelestialObject\<close> \<open>p\<close>
  constructed before it, \<open>p\<close> is the one and only object whose \<open>ChildObjects\<close> contains
  \<open>a\<close> (and contains it once), and the assignment to \<open>Obj3D\<close>, the only later write to
  a \<open>CelestialObject\<close>, changes neither \<open>ParentObject\<close> nor \<open>ChildObjects\<close>. The root is
  the first object and has no \<open>CelestialObject\<close> as parent; following \<open>ParentObject\<close>
  from \<open>a\<close> reaches the root within as many steps as there are objects (no cycle), and
  there are exactly as many objects as the payload has nodes.
\<close>

theorem celestial_tree:
  assumes "construct_js payload [] = Some (rootObject, h) \<or> construct payload [] = (rootObject, h)"
    and "a < length h" and "a \<noteq> rootObject"
  shows "(\<exists>p. p < a \<and> ParentObject (h ! a) = Some (Node p)
              \<and> a \<in> set (ChildObjects (h ! p)) \<and> distinct (ChildObjects (h ! p))
              \<and> (\<forall>q < length h. a \<in> set (ChildObjects (h ! q)) \<longrightarrow> q = p))
    \<and> rootObject = 0
    \<and> (\<forall>q. ParentObject (h ! rootObject) \<noteq> Some (Node q))
    \<and> climb h (length h) a = Some rootObject
    \<and> length h = nodes payload
    \<and> ParentObject (setObj3D b v h ! a) = ParentObject (h ! a)
    \<and> ChildObjects (setObj3D b v h ! a) = ChildObjects (h ! a)"
proof -
  have c: "construct payload [] = (rootObject, h)"
    using assms(1) construct_js_construct(1) [of payload "[]" "(rootObject, h)"] by blast
  note inv = construct_inv(1) [of payload "[]", unfolded c fst_conv snd_conv]
  have r0: "rootObject = 0" using inv by simp
  have ok: "tree_ok h 0" using inv by simp
  have nr: "\<forall>q. ParentObject (h ! 0) \<noteq> Some (Node q)" using inv by simp
  have "0 < a" using assms(3) r0 by simp
  from tree_ok_parent [OF ok this assms(2)]
  obtain p where p: "p < a" "ParentObject (h ! a) = Some (Node p)" "a \<in> set (ChildObjects (h ! p))"
    by blast
  have pl: "p < length h" using p(1) assms(2) by simp
  have d: "distinct (ChildObjects (h ! p))"
    using ok _ pl by (rule tree_ok_distinct) simp
  have u: "q = p" if "q < length h" "a \<in> set (ChildObjects (h ! q))" for q
    using tree_ok_child [OF ok _ that] p(2) by simp
  have "Suc a \<le> length h" using assms(2) by simp
  with climb_root [OF ok nr assms(2)] have "climb h (length h) a = Some 0"
    by (rule climb_more)
  then have cl: "climb h (length h) a = Some rootObject"
    by (simp add: r0)
  have n: "length h = nodes payload"
    using construct_nodes(1) [of payload "[]"] c by simp
  show ?thesis
    using p d u r0 nr cl n setObj3D_frame [of b v h a] by blast
qed

theorem celestial_tree_witness:
  "construct_js example_payload_js [] = Some (0, example_heap_js)
   \<and> ParentObject (example_heap_js ! 1) = Some (Node 0)
   \<and> climb example_heap_js (length example_heap_js) 1 = Some 0
   \<and> construct example_payload [] = (0, example_heap)
   \<and> (3::nat) < length example_heap
   \<and> ParentObject (example_heap ! 3) = Some (Node 2)
   \<and> 3 \<in> set (ChildObjects (example_heap ! 2))
   \<and> climb example_heap (length example_heap) 3 = Some 0
   \<and> length example_heap = nodes example_payload"
proof -
  have h: "construct_js example_payload [] = Some (0, example_heap)
           \<or> construct example_payload [] = (0, example_heap)"
    using construct_example by simp
  have l: "(3::nat) < length example_heap" by (simp add: example_heap_def)
  have n: "(3::nat) \<noteq> 0" by simp
  have e: "ParentObject (example_heap ! 3) = Some (Node 2)"
       "3 \<in> set (ChildObjects (example_heap ! 2))"
    by (simp_all add: example_heap_def)
  have "climb example_heap (length example_heap) 3 = Some 0"
    "length example_heap = nodes example_payload"
    using celestial_tree [OF h l n] by blast+
  moreover have j: "construct_js example_payload_js [] = Some (0, example_heap_js)"
    by (simp add: example_payload_js_def example_heap_js_def assigned_def attach_def Let_def)
  moreover have "ParentObject (example_heap_js ! 1) = Some (Node 0)"
    by (simp add: example_heap_js_def)
  moreover have "climb example_heap_js (length example_heap_js) 1 = Some 0"
  proof -
    have hj: "construct_js example_payload_js [] = Some (0, example_heap_js)
              \<or> construct example_payload_js [] = (0, example_heap_js)"
      using j by simp
    have lj: "(1::nat) < length example_heap_js" by (simp add: example_heap_js_def)
    have nj: "(1::nat) \<noteq> 0" by simp
    show ?thesis using celestial_tree [OF hj lj nj] by blast
  qed
  ultimately show ?thesis
    using construct_example l e by blast
qed

end
